theory Spec2Isabelle
  imports Complex_Main "HOL-Library.Log_Nat"
begin

section \<open>JavaScript strings\<close>

text \<open>
  A JavaScript string is a sequence of UTF-16 code units. A code unit is modelled by its
  number; none of the functions below depends on the bound \<open>65536\<close>. The source's
  string literals are ASCII and are written \<open>js ''...''\<close>.
\<close>

type_synonym code_unit = nat
type_synonym js_string = "code_unit list"

definition js :: "string \<Rightarrow> js_string" where
  "js s = map of_char s"

text \<open>
  \<open>LineTerminator\<close> of ECMAScript: LF, CR, LS (U+2028), PS (U+2029). The regular
  expression atom \<open>.\<close> (without the \<open>s\<close> flag) matches every code unit but these.
\<close>

definition is_line_terminator :: "code_unit \<Rightarrow> bool" where
  "is_line_terminator c \<longleftrightarrow> c = 10 \<or> c = 13 \<or> c = 8232 \<or> c = 8233"

text \<open>
  \<open>WhiteSpace\<close> and \<open>LineTerminator\<close> together: the class \<open>\s\<close> of a regular
  expression, and what \<open>String.prototype.trim\<close> and \<open>parseFloat\<close> strip. TAB, LF, VT, FF,
  CR, SP, NBSP, U+1680, U+2000..U+200A, LS, PS, U+202F, U+205F, U+3000, U+FEFF.
\<close>

definition is_space :: "code_unit \<Rightarrow> bool" where
  "is_space c \<longleftrightarrow>
     (9 \<le> c \<and> c \<le> 13) \<or> c = 32 \<or> c = 160 \<or> c = 5760 \<or> (8192 \<le> c \<and> c \<le> 8202) \<or>
     c = 8232 \<or> c = 8233 \<or> c = 8239 \<or> c = 8287 \<or> c = 12288 \<or> c = 65279"

text \<open>\<open>String.prototype.trim\<close>: white space removed at both ends.\<close>

definition trim_start :: "js_string \<Rightarrow> js_string" where
  "trim_start s = dropWhile is_space s"

definition trim_end :: "js_string \<Rightarrow> js_string" where
  "trim_end s = rev (dropWhile is_space (rev s))"

definition trim :: "js_string \<Rightarrow> js_string" where
  "trim s = trim_end (trim_start s)"

text \<open>
  \<open>String.prototype.split\<close> with a separator of one code unit: the pieces between the
  separators, in order; the empty string splits into one empty piece.
\<close>

fun split :: "code_unit \<Rightarrow> js_string \<Rightarrow> js_string list" where
  "split d [] = [[]]"
| "split d (c # cs) =
     (if c = d then [] # split d cs
      else (case split d cs of
              [] \<Rightarrow> [[c]]
            | w # ws \<Rightarrow> (c # w) # ws))"

definition comma :: code_unit where
  "comma = 44"

text \<open>The inverse direction, used to write a data line from its values: \<open>Array.prototype.join\<close>.\<close>

fun join :: "code_unit \<Rightarrow> js_string list \<Rightarrow> js_string" where
  "join d [] = []"
| "join d [v] = v"
| "join d (v # w # vs) = v @ d # join d (w # vs)"

section \<open>The two regular expressions of the delimited-text handler\<close>

text \<open>
  \<^verbatim>\<open>aiResponse.match(/CSV LINE:\s*\n?(.+)/i)\<close> and
  \<^verbatim>\<open>aiResponse.match(/INVOICE EMAIL:\s*\n?(.+)/i)\<close>:
  a literal label compared without regard to case, then \<open>\s*\<close>, then \<open>\n?\<close>, then the
  capture group \<open>(.+)\<close>. The pattern has no \<open>^\<close> and the expression no \<open>g\<close>, \<open>m\<close>, \<open>s\<close>
  or \<open>u\<close> flag, so \<open>match\<close> returns the leftmost match, tried at every start index in turn,
  and the matcher is the backtracking one of ECMAScript: every quantifier is greedy and gives
  back what it took when the rest of the pattern fails. Only capture group 1 of the match is
  used by the source, so that is what the model returns (\<open>None\<close> is \<open>null\<close>).
\<close>

text \<open>
  \<open>Canonicalize\<close> of a code unit under the \<open>i\<close> flag (no \<open>u\<close> flag) is its upper case,
  except that a code unit from 128 on is never mapped to one below 128. The labels are ASCII
  only, so against them a code unit from 128 on never matches and only the ASCII letters
  need their upper case.
\<close>

definition canonicalize :: "code_unit \<Rightarrow> code_unit" where
  "canonicalize c = (if 97 \<le> c \<and> c \<le> 122 then c - 32 else c)"

fun match_literal :: "js_string \<Rightarrow> js_string \<Rightarrow> js_string option" where
  "match_literal [] s = Some s"
| "match_literal (p # ps) [] = None"
| "match_literal (p # ps) (c # cs) =
     (if canonicalize p = canonicalize c then match_literal ps cs else None)"

text \<open>\<open>(.+)\<close>: one or more code units that are no line terminators, as many as there are.\<close>

definition capture_dot_plus :: "js_string \<Rightarrow> js_string option" where
  "capture_dot_plus s =
     (let g = takeWhile (\<lambda>c. \<not> is_line_terminator c) s
      in if g = [] then None else Some g)"

text \<open>\<open>\n?(.+)\<close>: the line feed is taken when there is one, and given back when \<open>(.+)\<close> fails after it.\<close>

definition optional_newline :: "js_string \<Rightarrow> js_string option" where
  "optional_newline s =
     (case s of
        [] \<Rightarrow> capture_dot_plus s
      | c # cs \<Rightarrow>
          if c = 10 then (case capture_dot_plus cs of
                            Some g \<Rightarrow> Some g
                          | None \<Rightarrow> capture_dot_plus s)
          else capture_dot_plus s)"

text \<open>\<open>\s*\n?(.+)\<close>: each white space is taken when the rest then matches, and given back otherwise.\<close>

fun space_star :: "js_string \<Rightarrow> js_string option" where
  "space_star [] = optional_newline []"
| "space_star (c # cs) =
     (if is_space c then (case space_star cs of
                            Some g \<Rightarrow> Some g
                          | None \<Rightarrow> optional_newline (c # cs))
      else optional_newline (c # cs))"

definition match_at :: "js_string \<Rightarrow> js_string \<Rightarrow> js_string option" where
  "match_at label s =
     (case match_literal label s of
        None \<Rightarrow> None
      | Some r \<Rightarrow> space_star r)"

fun regex_match :: "js_string \<Rightarrow> js_string \<Rightarrow> js_string option" where
  "regex_match label [] = match_at label []"
| "regex_match label (c # cs) =
     (case match_at label (c # cs) of
        Some g \<Rightarrow> Some g
      | None \<Rightarrow> regex_match label cs)"

section \<open>JavaScript numbers\<close>

text \<open>
  A Number is an IEEE 754 double: not-a-number, an infinity, or a finite value, which is
  modelled by the rational it denotes. The two zeros are one value here (\<open>Fin 0\<close>): the
  handlers only test a zero with \<open>||\<close> and \<open>> 0\<close>, which do not tell them apart, and
  never divide by a zero.
\<close>

datatype number = NaN | PosInf | NegInf | Fin rat

definition pow2 :: "int \<Rightarrow> rat" where
  "pow2 e = (if 0 \<le> e then 2 ^ nat e else 1 / 2 ^ nat (- e))"

definition pow10 :: "int \<Rightarrow> rat" where
  "pow10 e = (if 0 \<le> e then 10 ^ nat e else 1 / 10 ^ nat (- e))"

text \<open>The binary exponent of a positive rational: \<open>2 ^ e \<le> x < 2 ^ (e + 1)\<close>.\<close>

definition ilog2 :: "rat \<Rightarrow> int" where
  "ilog2 x = (if 1 \<le> x then bitlen \<lfloor>x\<rfloor> - 1 else - bitlen (\<lceil>1 / x\<rceil> - 1))"

definition round_half_even :: "rat \<Rightarrow> int" where
  "round_half_even x =
     (let f = \<lfloor>x\<rfloor>; d = x - of_int f
      in if d < 1 / 2 then f
         else if 1 / 2 < d then f + 1
         else if even f then f else f + 1)"

text \<open>
  Rounding a positive real to the nearest double, ties to even: 53 significant bits, the
  exponent of the leading bit between -1022 (below it the values are subnormal, with the
  spacing of exponent -1022) and 1023 (above it the result is infinite).
\<close>

definition round_positive :: "rat \<Rightarrow> number" where
  "round_positive x =
     (let e = max (ilog2 x) (- 1022);
          n = round_half_even (x / pow2 (e - 52))
      in if 1023 < e \<or> (e = 1023 \<and> n = 2 ^ 53) then PosInf
         else Fin (of_int n * pow2 (e - 52)))"

definition negate :: "number \<Rightarrow> number" where
  "negate v = (case v of NaN \<Rightarrow> NaN | PosInf \<Rightarrow> NegInf | NegInf \<Rightarrow> PosInf | Fin q \<Rightarrow> Fin (- q))"

definition round_double :: "rat \<Rightarrow> number" where
  "round_double x =
     (if x = 0 then Fin 0
      else if 0 < x then round_positive x
      else negate (round_positive (- x)))"

text \<open>The relation \<open>a > b\<close> on Numbers: false when either side is not a number.\<close>

fun greater_than :: "number \<Rightarrow> number \<Rightarrow> bool" where
  "greater_than NaN b = False"
| "greater_than a NaN = False"
| "greater_than PosInf b = (b \<noteq> PosInf)"
| "greater_than NegInf b = False"
| "greater_than (Fin x) PosInf = False"
| "greater_than (Fin x) NegInf = True"
| "greater_than (Fin x) (Fin y) = (y < x)"

text \<open>
  The quotient \<open>a / b\<close> of two Numbers. With one zero only, the sign of a quotient by zero
  is that of the dividend; the handlers divide by a value greater than zero only.
\<close>

fun divide_number :: "number \<Rightarrow> number \<Rightarrow> number" where
  "divide_number NaN b = NaN"
| "divide_number a NaN = NaN"
| "divide_number PosInf PosInf = NaN"
| "divide_number PosInf NegInf = NaN"
| "divide_number NegInf PosInf = NaN"
| "divide_number NegInf NegInf = NaN"
| "divide_number PosInf (Fin y) = (if y < 0 then NegInf else PosInf)"
| "divide_number NegInf (Fin y) = (if y < 0 then PosInf else NegInf)"
| "divide_number (Fin x) PosInf = Fin 0"
| "divide_number (Fin x) NegInf = Fin 0"
| "divide_number (Fin x) (Fin y) =
     (if y = 0 then (if x = 0 then NaN else if 0 < x then PosInf else NegInf)
      else round_double (x / y))"

subsection \<open>parseFloat\<close>

definition is_digit :: "code_unit \<Rightarrow> bool" where
  "is_digit c \<longleftrightarrow> 48 \<le> c \<and> c \<le> 57"

definition digits_value :: "js_string \<Rightarrow> nat" where
  "digits_value ds = foldl (\<lambda>a c. 10 * a + (c - 48)) 0 ds"

text \<open>
  \<open>ExponentPart\<close>: \<open>e\<close> or \<open>E\<close>, an optional sign and at least one digit. It belongs to the
  longest prefix only when complete; otherwise the exponent is 0.
\<close>

definition exponent_part :: "js_string \<Rightarrow> int" where
  "exponent_part s =
     (case s of
        [] \<Rightarrow> 0
      | c # r \<Rightarrow>
          if c = 101 \<or> c = 69 then
            (case r of
               [] \<Rightarrow> 0
             | d # r' \<Rightarrow>
                 if d = 43 then int (digits_value (takeWhile is_digit r'))
                 else if d = 45 then - int (digits_value (takeWhile is_digit r'))
                 else int (digits_value (takeWhile is_digit r)))
          else 0)"

datatype literal = Infinity | Decimal rat

text \<open>
  The longest prefix that is a \<open>StrUnsignedDecimalLiteral\<close>, and its mathematical value:
  \<open>Infinity\<close>, or digits with an optional fraction and exponent, or a fraction that starts
  with the point. \<open>None\<close> when no prefix is one.
\<close>

definition unsigned_literal :: "js_string \<Rightarrow> literal option" where
  "unsigned_literal s =
     (if take 8 s = js ''Infinity'' then Some Infinity
      else
        let ip = takeWhile is_digit s; r = dropWhile is_digit s
        in (case r of
              [] \<Rightarrow> if ip = [] then None else Some (Decimal (of_nat (digits_value ip)))
            | c # r' \<Rightarrow>
                if c = 46 then
                  (let fp = takeWhile is_digit r'; r'' = dropWhile is_digit r'
                   in if ip = [] \<and> fp = [] then None
                      else Some (Decimal (of_nat (digits_value (ip @ fp)) *
                                          pow10 (exponent_part r'' - int (length fp)))))
                else if ip = [] then None
                else Some (Decimal (of_nat (digits_value ip) * pow10 (exponent_part r)))))"

text \<open>
  \<open>parseFloat(string)\<close>: leading white space is skipped, then the longest prefix that is a
  \<open>StrDecimalLiteral\<close> (an optional sign and an unsigned literal) is converted; \<open>NaN\<close> when
  there is none.
\<close>

definition signed_literal :: "js_string \<Rightarrow> (bool \<times> literal) option" where
  "signed_literal s =
     (case s of
        [] \<Rightarrow> None
      | c # r \<Rightarrow>
          if c = 45 then map_option (Pair True) (unsigned_literal r)
          else if c = 43 then map_option (Pair False) (unsigned_literal r)
          else map_option (Pair False) (unsigned_literal s))"

definition parseFloat :: "js_string \<Rightarrow> number" where
  "parseFloat s =
     (case signed_literal (trim_start s) of
        None \<Rightarrow> NaN
      | Some (negative, Infinity) \<Rightarrow> if negative then NegInf else PosInf
      | Some (negative, Decimal v) \<Rightarrow> round_double (if negative then - v else v))"

subsection \<open>Number.prototype.toFixed\<close>

fun decimal :: "nat \<Rightarrow> js_string" where
  "decimal n = (if n < 10 then [48 + n] else decimal (n div 10) @ [48 + n mod 10])"

declare decimal.simps [simp del]

text \<open>
  The digits \<open>m\<close> of an integer with the decimal point \<open>f\<close> digits from the right, after
  zeros on the left when there are no more than \<open>f\<close> digits.
\<close>

definition insert_point :: "nat \<Rightarrow> js_string \<Rightarrow> js_string" where
  "insert_point f m =
     (if f = 0 then m
      else
        let m' = (if length m \<le> f then replicate (f + 1 - length m) 48 @ m else m);
            k = length m'
        in take (k - f) m' @ 46 # drop (k - f) m')"

text \<open>
  \<open>x.toFixed(f)\<close>. For a finite \<open>x\<close> below \<open>10 ^ 21\<close> in magnitude: the integer \<open>n\<close> with
  \<open>n / 10 ^ f\<close> nearest to the magnitude (the larger one of two), written in decimal with
  \<open>f\<close> digits after the point and at least one before it, after a minus sign when \<open>x\<close> is
  negative. A value that is not finite gives its name. From \<open>10 ^ 21\<close> on, the result is
  the shortest decimal form that \<open>Number::toString\<close> chooses; that form is not modelled and
  is the parameter \<open>to_string\<close>.
\<close>

definition toFixed :: "(rat \<Rightarrow> js_string) \<Rightarrow> nat \<Rightarrow> number \<Rightarrow> js_string" where
  "toFixed to_string f x =
     (case x of
        NaN \<Rightarrow> js ''NaN''
      | PosInf \<Rightarrow> js ''Infinity''
      | NegInf \<Rightarrow> js ''-Infinity''
      | Fin q \<Rightarrow>
          let s = (if q < 0 then js ''-'' else []);
              a = \<bar>q\<bar>
          in if 10 ^ 21 \<le> a then s @ to_string a
             else s @ insert_point f (decimal (nat \<lfloor>a * 10 ^ f + 1 / 2\<rfloor>)))"

section \<open>The delimited-text reply: lines 116 to 163 (and again 425 to 472)\<close>

text \<open>
  The object literal \<open>loadData\<close> of lines 133 to 150, and the object passed to
  \<open>res.status(200).json\<close> at lines 158 to 163.
\<close>

record load_data =
  id' :: js_string
  pickup_date :: js_string
  delivery_date :: js_string
  broker_company :: js_string
  contact :: js_string
  phone :: js_string
  extension :: js_string
  email :: js_string
  origin :: js_string
  destination :: js_string
  equipment :: js_string
  miles :: number
  posted_rate :: number
  booked_rate :: number
  shipper :: js_string
  receiver :: js_string

record parsed =
  success :: bool
  data :: load_data
  csvLine :: js_string
  rpm :: "js_string option"

text \<open>
  The bodies the handlers send: none (\<open>end()\<close>), \<open>{error}\<close>, \<open>{error, raw}\<close>,
  \<open>{error, details}\<close> and \<open>{success, data, csvLine, rpm}\<close>.
\<close>

datatype body =
    No_body
  | Error js_string
  | Error_raw js_string js_string
  | Error_details js_string js_string
  | Parsed parsed

record response =
  status :: nat
  body :: body

definition CSV_LABEL :: js_string where
  "CSV_LABEL = js ''CSV LINE:''"

definition EMAIL_LABEL :: js_string where
  "EMAIL_LABEL = js ''INVOICE EMAIL:''"

text \<open>Lines 117 and 120: \<open>csvLine\<close>, \<open>None\<close> for \<open>null\<close>.\<close>

definition csv_line :: "js_string \<Rightarrow> js_string option" where
  "csv_line aiResponse =
     (case regex_match CSV_LABEL aiResponse of
        Some g \<Rightarrow> Some (trim g)
      | None \<Rightarrow> None)"

text \<open>Lines 118 and 121: \<open>invoiceEmail\<close>.\<close>

definition invoice_email :: "js_string \<Rightarrow> js_string option" where
  "invoice_email aiResponse =
     (case regex_match EMAIL_LABEL aiResponse of
        Some g \<Rightarrow> Some (trim g)
      | None \<Rightarrow> None)"

text \<open>\<open>fields[i]\<close>: \<open>None\<close> is \<open>undefined\<close>, read beyond the end of the array \<open>fields\<close> (here \<open>fs\<close>).\<close>

definition element :: "js_string list \<Rightarrow> nat \<Rightarrow> js_string option" where
  "element fs i = (if i < length fs then Some (fs ! i) else None)"

text \<open>\<open>fields[i] || ''\<close>: the element when it is a string that is not empty.\<close>

definition or_empty :: "js_string option \<Rightarrow> js_string" where
  "or_empty f = (case f of None \<Rightarrow> [] | Some s \<Rightarrow> if s \<noteq> [] then s else [])"

text \<open>\<open>parseFloat(fields[i])\<close>: the argument is converted to a string first, \<open>undefined\<close> to its name.\<close>

definition parseFloat_of :: "js_string option \<Rightarrow> number" where
  "parseFloat_of f = parseFloat (case f of None \<Rightarrow> js ''undefined'' | Some s \<Rightarrow> s)"

text \<open>\<open>v || 0\<close> for a Number \<open>v\<close>: \<open>NaN\<close> and zero are the Numbers that count as false.\<close>

definition or_zero :: "number \<Rightarrow> number" where
  "or_zero v = (if v = NaN \<or> v = Fin 0 then Fin 0 else v)"

definition load_data_of :: "js_string list \<Rightarrow> load_data" where
  "load_data_of fs =
     \<lparr> id' = or_empty (element fs 0),
       pickup_date = or_empty (element fs 1),
       delivery_date = or_empty (element fs 2),
       broker_company = or_empty (element fs 3),
       contact = or_empty (element fs 4),
       phone = or_empty (element fs 5),
       extension = or_empty (element fs 6),
       email = or_empty (element fs 7),
       origin = or_empty (element fs 8),
       destination = or_empty (element fs 9),
       equipment = or_empty (element fs 10),
       miles = or_zero (parseFloat_of (element fs 11)),
       posted_rate = or_zero (parseFloat_of (element fs 12)),
       booked_rate = or_zero (parseFloat_of (element fs 13)),
       shipper = or_empty (element fs 14),
       receiver = or_empty (element fs 15) \<rparr>"

text \<open>Lines 152 to 156: \<open>rpm\<close>, \<open>None\<close> for \<open>null\<close>.\<close>

definition rpm_of :: "(rat \<Rightarrow> js_string) \<Rightarrow> load_data \<Rightarrow> js_string option" where
  "rpm_of to_string loadData =
     (if greater_than (miles loadData) (Fin 0) \<and> greater_than (booked_rate loadData) (Fin 0)
      then Some (toFixed to_string 2 (divide_number (booked_rate loadData) (miles loadData)))
      else None)"

text \<open>
  Lines 116 to 163, from the text of the model's reply to the response. \<open>invoiceEmail\<close>
  is computed at line 121 and not read afterwards. \<open>!csvLine\<close> holds for \<open>null\<close> and for
  the empty string.
\<close>

definition parse_reply :: "(rat \<Rightarrow> js_string) \<Rightarrow> js_string \<Rightarrow> response" where
  "parse_reply to_string aiResponse =
     (let csvLine = csv_line aiResponse;
          invoiceEmail = invoice_email aiResponse
      in case csvLine of
           None \<Rightarrow>
             \<lparr> status = 422,
               body = Error_raw (js ''Could not extract data from PDF'') aiResponse \<rparr>
         | Some line \<Rightarrow>
             if line = [] then
               \<lparr> status = 422,
                 body = Error_raw (js ''Could not extract data from PDF'') aiResponse \<rparr>
             else
               let fs = map trim (split comma line);
                   loadData = load_data_of fs
               in \<lparr> status = 200,
                    body = Parsed \<lparr> success = True, data = loadData, csvLine = line,
                                    rpm = rpm_of to_string loadData \<rparr> \<rparr>)"

section \<open>Requests, the services the handlers call, and the three handlers\<close>

text \<open>
  A JavaScript value as it arrives in a request body or comes out of \<open>JSON.parse\<close>. The
  pairs of an object have distinct keys.
\<close>

datatype jsval =
    Undefined
  | Null
  | Bool bool
  | Num number
  | Str js_string
  | Arr "jsval list"
  | Obj "(js_string \<times> jsval) list"

text \<open>\<open>ToBoolean\<close>: what \<open>!v\<close> and \<open>v || w\<close> test.\<close>

fun truthy :: "jsval \<Rightarrow> bool" where
  "truthy Undefined = False"
| "truthy Null = False"
| "truthy (Bool b) = b"
| "truthy (Num v) = (v \<noteq> NaN \<and> v \<noteq> Fin 0)"
| "truthy (Str s) = (s \<noteq> [])"
| "truthy (Arr vs) = True"
| "truthy (Obj kvs) = True"

definition or_null :: "jsval \<Rightarrow> jsval" where
  "or_null v = (if truthy v then v else Null)"

text \<open>
  Reading a property, \<open>v.k\<close> or \<open>const { k } = v\<close>, throws a \<open>TypeError\<close> when \<open>v\<close> is
  \<open>undefined\<close> or \<open>null\<close>; the handlers' branches test \<open>nullish\<close> before they read. Of
  any other value that is no object the result is \<open>undefined\<close> for each name that the
  handlers read.
\<close>

definition nullish :: "jsval \<Rightarrow> bool" where
  "nullish v \<longleftrightarrow> v = Undefined \<or> v = Null"

definition property :: "jsval \<Rightarrow> js_string \<Rightarrow> jsval" where
  "property v k =
     (case v of
        Obj kvs \<Rightarrow> (case map_of kvs k of Some x \<Rightarrow> x | None \<Rightarrow> Undefined)
      | _ \<Rightarrow> Undefined)"

record request =
  req_method :: js_string
  authorization :: "js_string option"
  req_body :: jsval

text \<open>
  What \<open>await anthropic.messages.create(...)\<close> and the read of \<open>response.content[0].text\<close>
  come to: the call (or the construction of the client before it) throws an error with a
  message; the reply has no block at index 0, so that reading \<open>.text\<close> throws a
  \<open>TypeError\<close>; the block has no text, so that calling a string method on it throws one;
  or the text is there.
\<close>

datatype model_result =
    Rejected js_string
  | Empty_content js_string
  | Without_text js_string
  | Text js_string

text \<open>
  The services and the environment, parameters of the model: \<open>supabase.auth.getUser\<close>
  (\<open>None\<close> when it reports an error), the model called with the delimited-text contract
  and with the JSON contract on a document payload, \<open>JSON.parse\<close> (\<open>None\<close> when it
  throws), the insertion into the table \<open>loads\<close> (\<open>None\<close> when it reports an error),
  \<open>process.env.APP_PASSWORD\<close>, \<open>Number::toString\<close> from \<open>10 ^ 21\<close> on, the engine's
  message of the \<open>TypeError\<close> for destructuring a body that is \<open>undefined\<close> or \<open>null\<close>
  (the message names which of the two the body is, so it is a function of the body), and
  \<open>new Date().toISOString()\<close>.
\<close>

record env =
  get_user :: "js_string \<Rightarrow> jsval option"
  create_message :: "jsval \<Rightarrow> model_result"
  create_message_json :: "jsval \<Rightarrow> model_result"
  json_parse :: "js_string \<Rightarrow> jsval option"
  insert_load :: "jsval \<Rightarrow> jsval option"
  app_password :: "js_string option"
  number_to_string :: "rat \<Rightarrow> js_string"
  destructure_message :: "jsval \<Rightarrow> js_string"
  now :: js_string

text \<open>
  What a handler did besides answering, in order. The response headers that every handler
  sets first (lines 58 to 60) and the lines written to the console are left out, and
  \<open>getUser\<close> is taken to report its errors in its result, as it does for the errors of
  the identity provider.
\<close>

datatype event = Model_call jsval | Insert jsval

text \<open>The body \<open>{success: true, load, parsed}\<close> of the JSON handler is one more shape.\<close>

datatype json_body =
    Json_error js_string
  | Json_no_body
  | Saved jsval jsval

record json_response =
  json_status :: nat
  json_body :: json_body

text \<open>\<open>verifyUser\<close>, lines 41 to 54 and 188 to 201: the error message or the user.\<close>

definition verifyUser :: "env \<Rightarrow> js_string option \<Rightarrow> js_string + jsval" where
  "verifyUser e authHeader =
     (case authHeader of
        None \<Rightarrow> Inl (js ''No authorization token provided'')
      | Some h \<Rightarrow>
          if h = [] \<or> take 7 h \<noteq> js ''Bearer ''
          then Inl (js ''No authorization token provided'')
          else (case get_user e (drop 7 h) of
                  None \<Rightarrow> Inl (js ''Invalid or expired token'')
                | Some user \<Rightarrow>
                    if \<not> truthy user then Inl (js ''Invalid or expired token'')
                    else Inr user))"

text \<open>Lines 83 to 171 and 392 to 480: the model call and what follows it.\<close>

definition call_and_parse :: "env \<Rightarrow> jsval \<Rightarrow> response \<times> event list" where
  "call_and_parse e pdfBase64 =
     (case create_message e pdfBase64 of
        Text aiResponse \<Rightarrow> parse_reply (number_to_string e) aiResponse
      | Rejected m \<Rightarrow> \<lparr> status = 500, body = Error_details (js ''Failed to parse PDF'') m \<rparr>
      | Empty_content m \<Rightarrow> \<lparr> status = 500, body = Error_details (js ''Failed to parse PDF'') m \<rparr>
      | Without_text m \<Rightarrow> \<lparr> status = 500, body = Error_details (js ''Failed to parse PDF'') m \<rparr>,
      [Model_call pdfBase64])"

text \<open>The handler of lines 56 to 172: bearer token, delimited-text contract.\<close>

definition handler :: "env \<Rightarrow> request \<Rightarrow> response \<times> event list" where
  "handler e req =
     (if req_method req = js ''OPTIONS'' then (\<lparr> status = 200, body = No_body \<rparr>, [])
      else if req_method req \<noteq> js ''POST''
      then (\<lparr> status = 405, body = Error (js ''Method not allowed'') \<rparr>, [])
      else
        (case verifyUser e (authorization req) of
           Inl authError \<Rightarrow> (\<lparr> status = 401, body = Error authError \<rparr>, [])
         | Inr user \<Rightarrow>
             if nullish (req_body req)
             then (\<lparr> status = 500,
                     body = Error_details (js ''Failed to parse PDF'')
                              (destructure_message e (req_body req)) \<rparr>, [])
             else
               let pdfBase64 = property (req_body req) (js ''pdfBase64'')
               in if \<not> truthy pdfBase64
                  then (\<lparr> status = 400, body = Error (js ''No PDF data provided'') \<rparr>, [])
                  else call_and_parse e pdfBase64))"

text \<open>The handler of lines 365 to 481: password in the body, delimited-text contract.\<close>

definition handler_password :: "env \<Rightarrow> request \<Rightarrow> response \<times> event list" where
  "handler_password e req =
     (if req_method req = js ''OPTIONS'' then (\<lparr> status = 200, body = No_body \<rparr>, [])
      else if req_method req \<noteq> js ''POST''
      then (\<lparr> status = 405, body = Error (js ''Method not allowed'') \<rparr>, [])
      else if nullish (req_body req)
      then (\<lparr> status = 500,
              body = Error_details (js ''Failed to parse PDF'')
                       (destructure_message e (req_body req)) \<rparr>, [])
      else
        let pdfBase64 = property (req_body req) (js ''pdfBase64'');
            password = property (req_body req) (js ''password'');
            APP_PASSWORD = (case app_password e of
                              None \<Rightarrow> js ''milian2024''
                            | Some p \<Rightarrow> if p \<noteq> [] then p else js ''milian2024'')
        in if password \<noteq> Str APP_PASSWORD
           then (\<lparr> status = 401, body = Error (js ''Invalid password'') \<rparr>, [])
           else if \<not> truthy pdfBase64
           then (\<lparr> status = 400, body = Error (js ''No PDF data provided'') \<rparr>, [])
           else call_and_parse e pdfBase64)"

text \<open>The object literal \<open>loadRecord\<close> of lines 287 to 308.\<close>

definition loadRecord :: "env \<Rightarrow> jsval \<Rightarrow> jsval \<Rightarrow> jsval \<Rightarrow> jsval" where
  "loadRecord e user loadData fileName =
     Obj [(js ''user_id'', property user (js ''id'')),
          (js ''load_number'', or_null (property loadData (js ''load_number''))),
          (js ''broker_name'', or_null (property loadData (js ''broker_name''))),
          (js ''broker_mc'', or_null (property loadData (js ''broker_mc''))),
          (js ''rate'', or_null (property loadData (js ''rate''))),
          (js ''pickup_date'', or_null (property loadData (js ''pickup_date''))),
          (js ''delivery_date'', or_null (property loadData (js ''delivery_date''))),
          (js ''pickup_city'', or_null (property loadData (js ''pickup_city''))),
          (js ''pickup_state'', or_null (property loadData (js ''pickup_state''))),
          (js ''pickup_address'', or_null (property loadData (js ''pickup_address''))),
          (js ''delivery_city'', or_null (property loadData (js ''delivery_city''))),
          (js ''delivery_state'', or_null (property loadData (js ''delivery_state''))),
          (js ''delivery_address'', or_null (property loadData (js ''delivery_address''))),
          (js ''commodity'', or_null (property loadData (js ''commodity''))),
          (js ''weight'', or_null (property loadData (js ''weight''))),
          (js ''miles'', or_null (property loadData (js ''miles''))),
          (js ''notes'', or_null (property loadData (js ''notes''))),
          (js ''source_file'', or_null fileName),
          (js ''status'', Str (js ''pending'')),
          (js ''created_at'', Str (now e))]"

text \<open>
  The handler of lines 203 to 332: bearer token, JSON contract, insertion. The inner
  \<open>try\<close> (lines 278 to 284) catches what \<open>trim\<close> and \<open>JSON.parse\<close> throw; its \<open>catch\<close>
  reads \<open>response.content[0].text\<close> again, which throws once more when there is no block,
  and that goes to the outer \<open>catch\<close>, as does the read of a property of \<open>null\<close> at line 289.
\<close>

definition handler_json :: "env \<Rightarrow> request \<Rightarrow> json_response \<times> event list" where
  "handler_json e req =
     (if req_method req = js ''OPTIONS'' then (\<lparr> json_status = 200, json_body = Json_no_body \<rparr>, [])
      else if req_method req \<noteq> js ''POST''
      then (\<lparr> json_status = 405, json_body = Json_error (js ''Method not allowed'') \<rparr>, [])
      else
        (case verifyUser e (authorization req) of
           Inl authError \<Rightarrow> (\<lparr> json_status = 401, json_body = Json_error authError \<rparr>, [])
         | Inr user \<Rightarrow>
             if nullish (req_body req)
             then (\<lparr> json_status = 500,
                     json_body = Json_error (js ''Failed to process rate confirmation'') \<rparr>, [])
             else
               let pdfBase64 = property (req_body req) (js ''pdfBase64'');
                   fileName = property (req_body req) (js ''fileName'')
               in if \<not> truthy pdfBase64
                  then (\<lparr> json_status = 400,
                          json_body = Json_error (js ''No PDF data provided'') \<rparr>, [])
                  else
                    (case create_message_json e pdfBase64 of
                       Rejected m \<Rightarrow>
                         (\<lparr> json_status = 500,
                            json_body = Json_error (js ''Failed to process rate confirmation'') \<rparr>,
                          [Model_call pdfBase64])
                     | Empty_content m \<Rightarrow>
                         (\<lparr> json_status = 500,
                            json_body = Json_error (js ''Failed to process rate confirmation'') \<rparr>,
                          [Model_call pdfBase64])
                     | Without_text m \<Rightarrow>
                         (\<lparr> json_status = 500,
                            json_body = Json_error (js ''Failed to parse rate confirmation data'') \<rparr>,
                          [Model_call pdfBase64])
                     | Text t \<Rightarrow>
                         (case json_parse e (trim t) of
                            None \<Rightarrow>
                              (\<lparr> json_status = 500,
                                 json_body = Json_error (js ''Failed to parse rate confirmation data'') \<rparr>,
                               [Model_call pdfBase64])
                          | Some loadData \<Rightarrow>
                              if nullish loadData
                              then (\<lparr> json_status = 500,
                                      json_body = Json_error (js ''Failed to process rate confirmation'') \<rparr>,
                                    [Model_call pdfBase64])
                              else
                                (case insert_load e (loadRecord e user loadData fileName) of
                                   None \<Rightarrow>
                                     (\<lparr> json_status = 500,
                                        json_body = Json_error (js ''Failed to save load to database'') \<rparr>,
                                      [Model_call pdfBase64,
                                       Insert (loadRecord e user loadData fileName)])
                                 | Some insertedLoad \<Rightarrow>
                                     (\<lparr> json_status = 200,
                                        json_body = Saved insertedLoad loadData \<rparr>,
                                      [Model_call pdfBase64,
                                       Insert (loadRecord e user loadData fileName)]))))))"

section \<open>Notions of the specification\<close>

text \<open>
  A label occurs in a text, letter case apart: some suffix of the text starts with it.
\<close>

fun label_found :: "js_string \<Rightarrow> js_string \<Rightarrow> bool" where
  "label_found l [] = (match_literal l [] \<noteq> None)"
| "label_found l (c # cs) = (match_literal l (c # cs) \<noteq> None \<or> label_found l cs)"

text \<open>
  The date format that the instruction contract of lines 8 to 32 asks for (rule 2):
  \<open>YYYY-MM-DD\<close>.
\<close>

definition is_canonical_date :: "js_string \<Rightarrow> bool" where
  "is_canonical_date d \<longleftrightarrow>
     length d = 10 \<and> list_all is_digit (take 4 d) \<and> d ! 4 = 45 \<and>
     list_all is_digit (take 2 (drop 5 d)) \<and> d ! 7 = 45 \<and> list_all is_digit (drop 8 d)"

text \<open>The response text of the end-to-end scenario (section 8, property 6).\<close>

definition scenario_reply :: js_string where
  "scenario_reply =
     js ''CSV LINE:\<newline>LD100,2025-11-21,2025-11-24,Acme Brokers,Jane Doe,555-1212,,jane@acme.com,Johnston SC,Dallas TX,R,800,0,2000,Acme Shipper,Acme Receiver\<newline>\<newline>INVOICE EMAIL:\<newline>billing@acme.com''"


text \<open>A Number that is not negative: positive infinity or a finite value from zero on.\<close>

definition non_negative :: "number \<Rightarrow> bool" where
  "non_negative v \<longleftrightarrow> (case v of NaN \<Rightarrow> False | PosInf \<Rightarrow> True | NegInf \<Rightarrow> False | Fin q \<Rightarrow> 0 \<le> q)"


text \<open>
  Services for the concrete runs: one user behind the token \<open>t0\<close>, a model that answers
  the delimited-text contract with the scenario's text and the JSON contract with \<open>{}\<close>,
  \<open>JSON.parse\<close> on that text, an insertion that returns the row it is given, and no
  \<open>APP_PASSWORD\<close> in the environment.
\<close>

definition sample_user :: jsval where
  "sample_user = Obj [(js ''id'', Str (js ''u1''))]"

definition sample_env :: env where
  "sample_env =
     \<lparr> get_user = (\<lambda>token. if token = js ''t0'' then Some sample_user else None),
       create_message = (\<lambda>pdf. Text scenario_reply),
       create_message_json = (\<lambda>pdf. Text (js ''{}'')),
       json_parse = (\<lambda>s. if s = js ''{}'' then Some (Obj []) else None),
       insert_load = (\<lambda>r. Some r),
       app_password = None,
       number_to_string = (\<lambda>q. []),
       destructure_message =
         (\<lambda>v. if v = Null then js ''Cannot destructure property pdfBase64 of req.body as it is null.''
              else js ''Cannot destructure property pdfBase64 of req.body as it is undefined.''),
       now = js ''2025-11-21T00:00:00.000Z'' \<rparr>"

section \<open>Evaluation on literals\<close>

lemma bitlen_numeral: "bitlen (numeral n) = bitlen (numeral n div 2) + 1"
  by (subst compute_bitlen) simp

lemma bitlen_one: "bitlen 1 = 1"
  by (subst compute_bitlen) simp

lemma floor_rat_numeral: "\<lfloor>(numeral a :: rat) / numeral b\<rfloor> = numeral a div numeral b"
  using floor_divide_of_int_eq [of "numeral a" "numeral b", where ?'a = rat] by simp

lemma ceiling_rat_numeral:
  "\<lceil>(numeral a :: rat) / numeral b\<rceil> = - (- numeral a div numeral b)"
  using floor_divide_of_int_eq [of "- numeral a" "numeral b", where ?'a = rat]
  by (simp add: ceiling_def)

lemmas decimal_numeral =
  decimal.simps [of "numeral k" for k] decimal.simps [of 0] decimal.simps [of 1]
  decimal.simps [of "Suc 0"]

lemmas string_eval =
  js_def is_space_def is_line_terminator_def trim_def trim_start_def trim_end_def comma_def
  canonicalize_def capture_dot_plus_def optional_newline_def match_at_def CSV_LABEL_def
  EMAIL_LABEL_def csv_line_def invoice_email_def

lemmas number_eval =
  parseFloat_of_def parseFloat_def signed_literal_def unsigned_literal_def is_digit_def
  digits_value_def exponent_part_def pow10_def round_double_def round_positive_def ilog2_def
  pow2_def round_half_even_def Let_def bitlen_numeral bitlen_one floor_rat_numeral
  ceiling_rat_numeral negate_def or_zero_def toFixed_def insert_point_def decimal_numeral

lemmas reply_eval =
  parse_reply_def load_data_of_def element_def or_empty_def rpm_of_def

section \<open>Splitting, joining and trimming\<close>

lemma split_not_Nil: "split d s \<noteq> []"
  by (induction s) (auto split: list.splits)

lemma split_no_separator: "d \<notin> set s \<Longrightarrow> split d s = [s]"
  by (induction s) auto

lemma split_append_separator: "d \<notin> set v \<Longrightarrow> split d (v @ d # r) = v # split d r"
  by (induction v) auto

lemma split_join:
  "vs \<noteq> [] \<Longrightarrow> \<forall>v\<in>set vs. d \<notin> set v \<Longrightarrow> split d (join d vs) = vs"
  by (induction d vs rule: join.induct) (auto simp: split_no_separator split_append_separator)

lemma split_append_tail:
  "d \<notin> set b \<Longrightarrow> split d (s @ b) = butlast (split d s) @ [last (split d s) @ b]"
proof (induction s)
  case Nil
  then show ?case by (simp add: split_no_separator)
next
  case (Cons c s)
  then show ?case
    using split_not_Nil [of d s] split_not_Nil [of d "s @ b"]
    by (cases "split d s"; cases "split d (s @ b)") (auto split: if_splits)
qed

lemma trim_start_append_spaces:
  "\<forall>c\<in>set a. is_space c \<Longrightarrow> trim_start (a @ w) = trim_start w"
  by (simp add: trim_start_def dropWhile_append2)

lemma trim_end_append_spaces:
  assumes "\<forall>c\<in>set b. is_space c"
  shows "trim_end (w @ b) = trim_end w"
proof -
  have "dropWhile is_space (rev b @ rev w) = dropWhile is_space (rev w)"
    by (rule dropWhile_append2) (use assms in auto)
  then show ?thesis by (simp add: trim_end_def)
qed

lemma trim_prepend_spaces:
  "\<forall>c\<in>set a. is_space c \<Longrightarrow> trim (a @ w) = trim w"
  by (simp add: trim_def trim_start_append_spaces)

lemma trim_append_spaces:
  assumes "\<forall>c\<in>set b. is_space c"
  shows "trim (w @ b) = trim w"
proof (cases "\<forall>c\<in>set w. is_space c")
  case True
  then have "trim_start (w @ b) = []" "trim_start w = []"
    using assms by (auto simp: trim_start_def)
  then show ?thesis by (simp add: trim_def)
next
  case False
  then have "trim_start (w @ b) = trim_start w @ b"
    by (auto simp: trim_start_def)
  then show ?thesis using assms by (simp add: trim_def trim_end_append_spaces)
qed

lemma map_trim_split_prepend:
  "\<not> is_space d \<Longrightarrow> \<forall>c\<in>set a. is_space c \<Longrightarrow>
     map trim (split d (a @ s)) = map trim (split d s)"
proof (induction a)
  case Nil
  then show ?case by simp
next
  case (Cons x a)
  then have "x \<noteq> d" by auto
  moreover have "trim (x # w) = trim w" for w
    using Cons.prems trim_prepend_spaces [of "[x]" w] by simp
  ultimately show ?case
    using Cons split_not_Nil [of d "a @ s"]
    by (cases "split d (a @ s)") auto
qed

lemma map_trim_split_append:
  assumes "\<not> is_space d" "\<forall>c\<in>set b. is_space c"
  shows "map trim (split d (s @ b)) = map trim (split d s)"
proof -
  have "d \<notin> set b" using assms by auto
  then have "map trim (split d (s @ b)) = map trim (butlast (split d s)) @ [trim (last (split d s))]"
    by (simp add: split_append_tail trim_append_spaces assms)
  also have "\<dots> = map trim (butlast (split d s) @ [last (split d s)])" by simp
  also have "\<dots> = map trim (split d s)" by (simp add: split_not_Nil)
  finally show ?thesis .
qed

lemma trim_decompose:
  "\<exists>a b. s = a @ trim s @ b \<and> (\<forall>c\<in>set a. is_space c) \<and> (\<forall>c\<in>set b. is_space c)"
proof -
  let ?t = "dropWhile is_space s"
  have "s = takeWhile is_space s @ ?t" by simp
  moreover have "?t = rev (dropWhile is_space (rev ?t)) @ rev (takeWhile is_space (rev ?t))"
    by (metis rev_append rev_rev_ident takeWhile_dropWhile_id)
  moreover have "\<forall>c\<in>set (takeWhile is_space s). is_space c"
    by (auto dest: set_takeWhileD)
  moreover have "\<forall>c\<in>set (rev (takeWhile is_space (rev ?t))). is_space c"
    by (auto dest: set_takeWhileD)
  ultimately show ?thesis
    unfolding trim_def trim_start_def trim_end_def by metis
qed

lemma map_trim_split_trim:
  assumes "\<not> is_space d"
  shows "map trim (split d (trim s)) = map trim (split d s)"
proof -
  obtain a b where s: "s = a @ trim s @ b"
    and a: "\<forall>c\<in>set a. is_space c" and b: "\<forall>c\<in>set b. is_space c"
    using trim_decompose by blast
  have "map trim (split d s) = map trim (split d (a @ trim s @ b))" using s by simp
  also have "\<dots> = map trim (split d (trim s @ b))" by (rule map_trim_split_prepend [OF assms a])
  also have "\<dots> = map trim (split d (trim s))" by (rule map_trim_split_append [OF assms b])
  finally show ?thesis by simp
qed

section \<open>The regular expressions\<close>

lemma line_terminator_is_space: "is_line_terminator c \<Longrightarrow> is_space c"
  by (auto simp: is_line_terminator_def is_space_def)

lemma comma_not_space: "\<not> is_space comma"
  by (simp add: is_space_def comma_def)

lemma match_literal_append:
  "map canonicalize l' = map canonicalize l \<Longrightarrow> match_literal l (l' @ x) = Some x"
  by (induction l arbitrary: l') auto

lemma match_literal_Some:
  "match_literal l s = Some r \<Longrightarrow> \<exists>l'. s = l' @ r \<and> map canonicalize l' = map canonicalize l"
proof (induction l s rule: match_literal.induct)
  case (3 p ps c cs)
  then obtain l' where "cs = l' @ r" "map canonicalize l' = map canonicalize ps"
    by (auto split: if_splits)
  moreover have "canonicalize c = canonicalize p" using 3 by (auto split: if_splits)
  ultimately show ?case by (intro exI [of _ "c # l'"]) simp
qed auto

lemma label_found_iff:
  "label_found l s \<longleftrightarrow>
     (\<exists>pre l' post. s = pre @ l' @ post \<and> map canonicalize l' = map canonicalize l)"
proof (induction s)
  case Nil
  show ?case
  proof
    assume "label_found l []"
    then obtain r where "match_literal l [] = Some r" by auto
    from match_literal_Some [OF this] show "\<exists>pre l' post. [] = pre @ l' @ post \<and> map canonicalize l' = map canonicalize l"
      by auto
  next
    assume "\<exists>pre l' post. [] = pre @ l' @ post \<and> map canonicalize l' = map canonicalize l"
    then have "l = []" by auto
    then show "label_found l []" by simp
  qed
next
  case (Cons c cs)
  show ?case
  proof
    assume "label_found l (c # cs)"
    then consider r where "match_literal l (c # cs) = Some r" | "label_found l cs" by auto
    then show "\<exists>pre l' post. c # cs = pre @ l' @ post \<and> map canonicalize l' = map canonicalize l"
    proof cases
      case 1
      from match_literal_Some [OF this] obtain l' where "c # cs = [] @ l' @ r" "map canonicalize l' = map canonicalize l"
        by auto
      then show ?thesis by blast
    next
      case 2
      then obtain pre l' post where "cs = pre @ l' @ post" "map canonicalize l' = map canonicalize l"
        using Cons by auto
      then have "c # cs = (c # pre) @ l' @ post" by simp
      then show ?thesis using \<open>map canonicalize l' = map canonicalize l\<close> by blast
    qed
  next
    assume "\<exists>pre l' post. c # cs = pre @ l' @ post \<and> map canonicalize l' = map canonicalize l"
    then obtain pre l' post where s: "c # cs = pre @ l' @ post" and l': "map canonicalize l' = map canonicalize l"
      by blast
    show "label_found l (c # cs)"
    proof (cases pre)
      case Nil
      then have "match_literal l (c # cs) = Some post"
        using s match_literal_append [OF l', of post] by simp
      then show ?thesis by simp
    next
      case (Cons x pre')
      then have "cs = pre' @ l' @ post" using s by simp
      then have "label_found l cs" using Cons.IH l' by blast
      then show ?thesis by simp
    qed
  qed
qed

lemma regex_match_None: "\<not> label_found l s \<Longrightarrow> regex_match l s = None"
  by (induction s) (auto simp: match_at_def split: option.splits)

lemma regex_match_here: "match_at l s = Some g \<Longrightarrow> regex_match l s = Some g"
  by (cases s) auto

lemma regex_match_skip:
  "\<forall>i<length pre. match_at l (drop i (pre @ s)) = None \<Longrightarrow> regex_match l (pre @ s) = regex_match l s"
proof (induction pre)
  case Nil
  then show ?case by simp
next
  case (Cons c pre)
  have "match_at l (c # pre @ s) = None" using Cons.prems [rule_format, of 0] by simp
  moreover have "\<forall>i<length pre. match_at l (drop i (pre @ s)) = None"
    using Cons.prems [rule_format, of "Suc i" for i] by simp
  ultimately show ?case using Cons.IH by simp
qed

lemma capture_dot_plus_line:
  "g \<noteq> [] \<Longrightarrow> \<forall>c\<in>set g. \<not> is_line_terminator c \<Longrightarrow> rest = [] \<or> is_line_terminator (hd rest)
     \<Longrightarrow> capture_dot_plus (g @ rest) = Some g"
  by (cases rest) (auto simp: capture_dot_plus_def Let_def takeWhile_append2 takeWhile_eq_all_conv [THEN iffD2])

lemma space_star_skip:
  "\<forall>c\<in>set w. is_space c \<Longrightarrow> capture_dot_plus y = Some g \<Longrightarrow> y \<noteq> [] \<Longrightarrow> \<not> is_space (hd y)
     \<Longrightarrow> space_star (w @ y) = Some g"
proof (induction w)
  case Nil
  then have "hd y \<noteq> 10" by (auto simp: is_space_def)
  then show ?case using Nil by (cases y) (auto simp: optional_newline_def)
next
  case (Cons c w)
  then show ?case by simp
qed

lemma mem_trim: "c \<in> set s \<Longrightarrow> \<not> is_space c \<Longrightarrow> c \<in> set (trim s)"
proof -
  assume c: "c \<in> set s" "\<not> is_space c"
  obtain a b where "s = a @ trim s @ b" "\<forall>c\<in>set a. is_space c" "\<forall>c\<in>set b. is_space c"
    using trim_decompose by blast
  then have "set s = set a \<union> set (trim s) \<union> set b" "c \<notin> set a" "c \<notin> set b"
    using c by (metis set_append Un_assoc, auto)
  then show ?thesis using c by auto
qed

lemma trim_trim_start: "trim (dropWhile is_space s) = trim s"
  by (simp add: trim_def trim_start_def)

lemma separator_in_join: "2 \<le> length vs \<Longrightarrow> d \<in> set (join d vs)"
  by (induction d vs rule: join.induct) auto

lemma set_join: "set (join d vs) \<subseteq> insert d (\<Union> (set ` set vs))"
  by (induction d vs rule: join.induct) auto

lemma csv_line_values:
  assumes len: "2 \<le> length vs"
    and vs: "\<forall>v\<in>set vs. \<forall>c\<in>set v. c \<noteq> comma \<and> \<not> is_line_terminator c"
    and rest: "rest = [] \<or> is_line_terminator (hd rest)"
    and lbl: "map canonicalize lbl = map canonicalize CSV_LABEL"
    and w: "\<forall>c\<in>set w. is_space c"
  shows "csv_line (lbl @ w @ join comma vs @ rest) = Some (trim (join comma vs))"
proof -
  let ?body = "join comma vs"
  let ?g = "dropWhile is_space ?body"
  have comma: "comma \<in> set ?body" using len by (rule separator_in_join)
  have "\<not> is_line_terminator comma" by (simp add: comma_def is_line_terminator_def)
  then have no_lt: "\<forall>c\<in>set ?body. \<not> is_line_terminator c"
    using vs set_join [of comma vs] by blast
  have g: "?g \<noteq> []" using comma comma_not_space by (auto simp: dropWhile_eq_Nil_conv)
  then have hd: "\<not> is_space (hd ?g)" by (rule hd_dropWhile)
  have "\<forall>c\<in>set ?g. \<not> is_line_terminator c" using no_lt by (auto dest: set_dropWhileD)
  then have cap: "capture_dot_plus (?g @ rest) = Some ?g"
    using g rest by (intro capture_dot_plus_line) auto
  have "\<forall>c\<in>set (w @ takeWhile is_space ?body). is_space c"
    using w by (auto dest: set_takeWhileD)
  then have "space_star ((w @ takeWhile is_space ?body) @ (?g @ rest)) = Some ?g"
    using cap g hd by (intro space_star_skip) auto
  moreover have "(w @ takeWhile is_space ?body) @ (?g @ rest) = w @ ?body @ rest"
    by (metis append.assoc takeWhile_dropWhile_id)
  ultimately have "space_star (w @ ?body @ rest) = Some ?g" by (simp only:)
  then have "match_at CSV_LABEL (lbl @ w @ ?body @ rest) = Some ?g"
    by (simp add: match_at_def match_literal_append [OF lbl])
  then have "regex_match CSV_LABEL (lbl @ w @ ?body @ rest) = Some ?g"
    by (rule regex_match_here)
  then show ?thesis by (simp add: csv_line_def trim_trim_start)
qed

lemma fields_of_values:
  assumes "vs \<noteq> []" "\<forall>v\<in>set vs. \<forall>c\<in>set v. c \<noteq> comma \<and> \<not> is_line_terminator c"
  shows "map trim (split comma (trim (join comma vs))) = map trim vs"
proof -
  have "split comma (join comma vs) = vs" using assms by (intro split_join) auto
  then show ?thesis by (simp add: map_trim_split_trim [OF comma_not_space])
qed

lemma parse_reply_values:
  assumes len: "2 \<le> length vs"
    and vs: "\<forall>v\<in>set vs. \<forall>c\<in>set v. c \<noteq> comma \<and> \<not> is_line_terminator c"
    and rest: "rest = [] \<or> is_line_terminator (hd rest)"
    and lbl: "map canonicalize lbl = map canonicalize CSV_LABEL"
    and w: "\<forall>c\<in>set w. is_space c"
  shows "parse_reply ts (lbl @ w @ join comma vs @ rest) =
           \<lparr> status = 200,
             body = Parsed \<lparr> success = True, data = load_data_of (map trim vs),
                             csvLine = trim (join comma vs),
                             rpm = rpm_of ts (load_data_of (map trim vs)) \<rparr> \<rparr>"
proof -
  have "comma \<in> set (trim (join comma vs))"
    using separator_in_join [OF len] comma_not_space by (intro mem_trim)
  then have "trim (join comma vs) \<noteq> []" by auto
  moreover have "vs \<noteq> []" using len by auto
  ultimately show ?thesis
    using csv_line_values [OF assms] fields_of_values [OF _ vs]
    by (simp add: parse_reply_def Let_def)
qed

section \<open>The delimited-text reply\<close>

lemma or_empty_Some: "or_empty (Some s) = s"
  by (simp add: or_empty_def)


lemma parse_reply_line:
  assumes "csv_line aiResponse = Some line" "line \<noteq> []"
  shows "parse_reply ts aiResponse =
           \<lparr> status = 200,
             body = Parsed \<lparr> success = True, data = load_data_of (map trim (split comma line)),
                             csvLine = line,
                             rpm = rpm_of ts (load_data_of (map trim (split comma line))) \<rparr> \<rparr>"
  using assms by (simp add: parse_reply_def Let_def)









section \<open>Numbers: rounding and \<open>toFixed\<close>\<close>

text \<open>
  The rounding of the model is rounding to nearest: the binary exponent is the right one,
  and a finite result is at most half a unit in the last place away.
\<close>

lemma ilog2_bounds:
  assumes "0 < x"
  shows "pow2 (ilog2 x) \<le> x \<and> x < pow2 (ilog2 x + 1)"
proof (cases "1 \<le> x")
  case True
  define n where "n = \<lfloor>x\<rfloor>"
  have n: "0 < n" "of_int n \<le> x" "x < of_int n + 1" using True by (auto simp: n_def) linarith+
  have b: "1 \<le> bitlen n" using n(1) bitlen_nonneg [of n] bitlen_eq_zero_iff [of n] by linarith
  have "2 ^ nat (bitlen n - 1) \<le> n" "n + 1 \<le> 2 ^ nat (bitlen n)"
    using bitlen_bounds [OF n(1)] by auto
  then have "(of_int (2 ^ nat (bitlen n - 1)) :: rat) \<le> of_int n"
    and "(of_int (n + 1) :: rat) \<le> of_int (2 ^ nat (bitlen n))"
    by (simp_all only: of_int_le_iff)
  then have lo: "(2::rat) ^ nat (bitlen n - 1) \<le> of_int n"
    and hi: "of_int n + 1 \<le> (2::rat) ^ nat (bitlen n)"
    by simp_all
  have "ilog2 x = bitlen n - 1" using True by (simp add: ilog2_def n_def)
  moreover have "pow2 (bitlen n - 1) = 2 ^ nat (bitlen n - 1)"
    and "pow2 (bitlen n - 1 + 1) = 2 ^ nat (bitlen n)"
    using b by (simp_all add: pow2_def)
  moreover have "2 ^ nat (bitlen n - 1) \<le> x" "x < 2 ^ nat (bitlen n)"
    using lo hi n by linarith+
  ultimately show ?thesis by (simp only:)
next
  case False
  define y where "y = inverse x"
  define m where "m = \<lceil>y\<rceil>"
  have x: "x = inverse y" by (simp add: y_def)
  have "x < 1" using False by simp
  then have y: "1 < y" unfolding y_def using assms by (simp add: one_less_inverse_iff)
  have m: "of_int m - 1 < y" "y \<le> of_int m" unfolding m_def by linarith+
  then have m1: "1 < m" using y by linarith
  define k where "k = bitlen (m - 1)"
  have k1: "1 \<le> k" using m1 bitlen_nonneg [of "m - 1"] bitlen_eq_zero_iff [of "m - 1"]
    unfolding k_def by linarith
  have "2 ^ nat (k - 1) \<le> m - 1" "m \<le> 2 ^ nat k"
    using bitlen_bounds [of "m - 1"] m1 by (auto simp: k_def)
  then have "(of_int (2 ^ nat (k - 1)) :: rat) \<le> of_int (m - 1)"
    and "(of_int m :: rat) \<le> of_int (2 ^ nat k)"
    by (simp_all only: of_int_le_iff)
  then have lo: "(2::rat) ^ nat (k - 1) \<le> of_int m - 1"
    and hi: "of_int m \<le> (2::rat) ^ nat k"
    by simp_all
  have e: "ilog2 x = - k" using False by (simp add: ilog2_def k_def m_def y_def inverse_eq_divide)
  have "y \<le> 2 ^ nat k" and "2 ^ nat (k - 1) < y" using lo hi m by linarith+
  then have "inverse (2 ^ nat k) \<le> x" and "x < inverse (2 ^ nat (k - 1))"
    unfolding x using y by (simp_all add: le_imp_inverse_le less_imp_inverse_less)
  moreover have "pow2 (- k) = inverse (2 ^ nat k)"
    using k1 by (simp add: pow2_def inverse_eq_divide)
  moreover have "pow2 (- k + 1) = inverse (2 ^ nat (k - 1))"
    using k1 by (cases "k = 1") (simp_all add: pow2_def inverse_eq_divide)
  ultimately show ?thesis unfolding e by (simp only:)
qed

lemma round_half_even_nearest: "\<bar>of_int (round_half_even y) - y\<bar> \<le> 1 / 2"
proof -
  have "of_int \<lfloor>y\<rfloor> \<le> y" "y < of_int \<lfloor>y\<rfloor> + 1" by linarith+
  then show ?thesis
    by (auto simp: round_half_even_def Let_def abs_le_iff)
qed

lemma round_positive_nearest:
  assumes "0 < x" "round_positive x = Fin r"
  shows "\<bar>r - x\<bar> \<le> pow2 (max (ilog2 x) (- 1022) - 52) / 2"
proof -
  define u where "u = pow2 (max (ilog2 x) (- 1022) - 52)"
  define n where "n = round_half_even (x / u)"
  have u: "0 < u" unfolding u_def by (simp add: pow2_def)
  have r: "r = of_int n * u"
    using assms(2) unfolding round_positive_def Let_def u_def [symmetric] n_def [symmetric]
    by (simp split: if_splits)
  have "\<bar>of_int n - x / u\<bar> \<le> 1 / 2" unfolding n_def by (rule round_half_even_nearest)
  then have "\<bar>of_int n - x / u\<bar> * u \<le> 1 / 2 * u" using u by (intro mult_right_mono) auto
  moreover have "\<bar>of_int n - x / u\<bar> * u = \<bar>of_int n * u - x\<bar>"
  proof -
    have "\<bar>of_int n - x / u\<bar> * u = \<bar>of_int n - x / u\<bar> * \<bar>u\<bar>" using u by simp
    also have "\<dots> = \<bar>(of_int n - x / u) * u\<bar>" by (simp only: abs_mult)
    also have "(of_int n - x / u) * u = of_int n * u - x" using u by (simp add: left_diff_distrib)
    finally show ?thesis .
  qed
  ultimately show ?thesis unfolding r u_def [symmetric] by simp
qed

lemma decimal_small: "n < 10 \<Longrightarrow> decimal n = [48 + n]"
  by (subst decimal.simps) simp

lemma decimal_large: "10 \<le> n \<Longrightarrow> decimal n = decimal (n div 10) @ [48 + n mod 10]"
  by (subst decimal.simps) simp

lemma decimal_not_Nil: "decimal n \<noteq> []"
  by (subst decimal.simps) simp

lemma replicate_2: "replicate 2 x = [x, x]"
  by (simp add: numeral_2_eq_2)

lemma insert_point_1: "insert_point 2 [a] = [48, 46, 48, a]"
  by (simp add: insert_point_def Let_def replicate_2)

lemma insert_point_2: "insert_point 2 [a, b] = [48, 46, a, b]"
  by (simp add: insert_point_def Let_def)

lemma insert_point_3: "m \<noteq> [] \<Longrightarrow> insert_point 2 (m @ [a, b]) = m @ [46, a, b]"
  by (simp add: insert_point_def Let_def)

lemma insert_point_decimal:
  "insert_point 2 (decimal n) = decimal (n div 100) @ [46, 48 + n mod 100 div 10, 48 + n mod 10]"
proof -
  consider "n < 10" | "10 \<le> n" "n < 100" | "100 \<le> n" by linarith
  then show ?thesis
  proof cases
    case 1
    then show ?thesis by (simp add: decimal_small insert_point_1)
  next
    case 2
    then have "decimal n = [48 + n div 10, 48 + n mod 10]"
      by (simp add: decimal_large decimal_small)
    then show ?thesis using 2 by (simp add: decimal_small insert_point_2)
  next
    case 3
    then have n: "10 \<le> n" and n': "10 \<le> n div 10" by auto
    have "decimal n = decimal (n div 10) @ [48 + n mod 10]"
      using n by (rule decimal_large)
    also have "decimal (n div 10) = decimal (n div 10 div 10) @ [48 + n div 10 mod 10]"
      using n' by (rule decimal_large)
    also have "n div 10 div 10 = n div 100" by (simp add: div_mult2_eq [symmetric])
    also have "n div 10 mod 10 = n mod 100 div 10"
    proof -
      have "n mod (10 * 10) = 10 * (n div 10 mod 10) + n mod 10" by (rule mod_mult2_eq)
      then have "n mod 100 = 10 * (n div 10 mod 10) + n mod 10" by simp
      then show ?thesis by simp
    qed
    finally have "decimal n = decimal (n div 100) @ [48 + n mod 100 div 10, 48 + n mod 10]"
      by simp
    then show ?thesis by (simp add: insert_point_3 decimal_not_Nil)
  qed
qed

lemma toFixed_2_finite:
  assumes "0 \<le> q" "q < 10 ^ 21"
  shows "toFixed ts 2 (Fin q) =
           (let n = nat \<lfloor>q * 100 + 1 / 2\<rfloor>
            in decimal (n div 100) @ [46, 48 + n mod 100 div 10, 48 + n mod 10])"
  using assms by (simp add: toFixed_def Let_def insert_point_decimal)

lemma round_half_even_nonneg: "0 \<le> x \<Longrightarrow> 0 \<le> round_half_even x"
  by (auto simp: round_half_even_def Let_def)

lemma pow2_pos: "0 < pow2 e"
  by (simp add: pow2_def)

lemma round_positive_non_negative:
  assumes "0 < x"
  shows "non_negative (round_positive x)"
proof -
  define e where "e = max (ilog2 x) (- 1022)"
  define n where "n = round_half_even (x / pow2 (e - 52))"
  have "0 \<le> x / pow2 (e - 52)" using assms pow2_pos [of "e - 52"] by simp
  then have "0 \<le> n" unfolding n_def by (rule round_half_even_nonneg)
  then have "0 \<le> of_int n * pow2 (e - 52)"
    using pow2_pos [of "e - 52"] by (intro mult_nonneg_nonneg) auto
  then show ?thesis
    unfolding round_positive_def e_def [symmetric] Let_def n_def [symmetric]
    by (simp add: non_negative_def)
qed

lemma round_double_non_negative: "0 \<le> x \<Longrightarrow> non_negative (round_double x)"
  using round_positive_non_negative [of x]
  by (cases "x = 0") (simp_all add: round_double_def non_negative_def)

lemma round_half_up_close:
  assumes "0 \<le> (q::rat)"
  shows "\<bar>of_nat (nat \<lfloor>q * 100 + 1 / 2\<rfloor>) / 100 - q\<bar> \<le> 1 / 200"
proof -
  define f :: rat where "f = of_int \<lfloor>q * 100 + 1 / 2\<rfloor>"
  have "0 \<le> \<lfloor>q * 100 + 1 / 2\<rfloor>" using assms by simp
  then have n: "of_nat (nat \<lfloor>q * 100 + 1 / 2\<rfloor>) = f" by (simp add: f_def)
  have "f \<le> q * 100 + 1 / 2" "q * 100 + 1 / 2 < f + 1"
    unfolding f_def by linarith+
  then have "\<bar>f / 100 - q\<bar> \<le> 1 / 200" unfolding abs_le_iff by linarith
  then show ?thesis by (simp only: n)
qed

section \<open>The rate per mile\<close>

lemma greater_than_zero_iff:
  "greater_than v (Fin 0) \<longleftrightarrow> v = PosInf \<or> (\<exists>q. v = Fin q \<and> 0 < q)"
  by (cases v) simp_all

lemma toFixed_2_large: "0 \<le> q \<Longrightarrow> 10 ^ 21 \<le> q \<Longrightarrow> toFixed ts 2 (Fin q) = ts q"
  by (simp add: toFixed_def Let_def)

lemma toFixed_2_zero: "toFixed ts 2 (Fin 0) = js ''0.00''"
  using toFixed_2_finite [of 0 ts] by (simp add: Let_def decimal_small js_def)

lemma toFixed_not_finite:
  "toFixed ts f PosInf = js ''Infinity''" "toFixed ts f NaN = js ''NaN''"
  by (simp_all add: toFixed_def)

text \<open>
  As stated, C2 fails for a record with an infinite mileage and an infinite booked rate
  (\<open>parseFloat\<close> reads \<open>Infinity\<close>, and \<open>|| 0\<close> keeps it): both are greater than zero, the
  rate per mile is present, and it is the text \<open>NaN\<close>, not a quotient rounded to two
  decimals.
\<close>

theorem infinite_rate_per_mile_counterexample:
  "parse_reply (number_to_string sample_env) (js ''CSV LINE: A,,,,,,,,,,,Infinity,0,Infinity'') =
     \<lparr> status = 200,
       body = Parsed
         \<lparr> success = True,
           data = \<lparr> id' = js ''A'', pickup_date = js '''', delivery_date = js '''',
                    broker_company = js '''', contact = js '''', phone = js '''',
                    extension = js '''', email = js '''', origin = js '''',
                    destination = js '''', equipment = js '''', miles = PosInf,
                    posted_rate = Fin 0, booked_rate = PosInf, shipper = js '''',
                    receiver = js '''' \<rparr>,
           csvLine = js ''A,,,,,,,,,,,Infinity,0,Infinity'',
           rpm = Some (js ''NaN'') \<rparr> \<rparr>"
  by (simp add: string_eval number_eval reply_eval)

text \<open>
  C2 (amended). For the mileage and the booked rate of the record of every successful
  parse, the rate per mile is present if and only if both are greater than zero, that is,
  each is positive infinity or a finite value above zero; when absent it is \<open>null\<close> in a
  response that is still a success. When present it is \<open>toFixed(2)\<close> of their quotient:
  \<^item> for two finite values, with \<open>q\<close> their quotient rounded to the nearest double: when
    \<open>q\<close> is below \<open>10 ^ 21\<close>, the decimal text, with two digits after the point, of the
    nearest multiple of one hundredth, at most half a hundredth away from \<open>q\<close>; from
    \<open>10 ^ 21\<close> on, the text that \<open>Number::toString\<close> gives \<open>q\<close>; and \<open>Infinity\<close> when the
    quotient overflows;
  \<^item> \<open>Infinity\<close> for a finite mileage and an infinite booked rate;
  \<^item> \<open>0.00\<close> for an infinite mileage and a finite booked rate;
  \<^item> \<open>NaN\<close> when both are infinite.
\<close>

theorem rate_per_mile:
  assumes "csv_line aiResponse = Some line" and "line \<noteq> []"
  shows "(let d = load_data_of (map trim (split comma line)); r = rpm_of ts d
          in parse_reply ts aiResponse =
               \<lparr> status = 200,
                 body = Parsed \<lparr> success = True, data = d, csvLine = line, rpm = r \<rparr> \<rparr> \<and>
             (r \<noteq> None \<longleftrightarrow> greater_than (miles d) (Fin 0) \<and> greater_than (booked_rate d) (Fin 0)) \<and>
             (greater_than (miles d) (Fin 0) \<longleftrightarrow>
                miles d = PosInf \<or> (\<exists>m. miles d = Fin m \<and> 0 < m)) \<and>
             (greater_than (booked_rate d) (Fin 0) \<longleftrightarrow>
                booked_rate d = PosInf \<or> (\<exists>b. booked_rate d = Fin b \<and> 0 < b)) \<and>
             (greater_than (miles d) (Fin 0) \<and> greater_than (booked_rate d) (Fin 0) \<longrightarrow>
                r = Some (toFixed ts 2 (divide_number (booked_rate d) (miles d)))) \<and>
             (\<forall>m b. miles d = Fin m \<and> booked_rate d = Fin b \<and> 0 < m \<and> 0 < b \<longrightarrow>
                (case round_double (b / m) of
                   Fin q \<Rightarrow>
                     0 \<le> q \<and>
                     (if q < 10 ^ 21
                      then (let n = nat \<lfloor>q * 100 + 1 / 2\<rfloor>
                            in r = Some (decimal (n div 100) @
                                         [46, 48 + n mod 100 div 10, 48 + n mod 10]) \<and>
                               \<bar>of_nat n / 100 - q\<bar> \<le> 1 / 200)
                      else r = Some (ts q))
                 | PosInf \<Rightarrow> r = Some (js ''Infinity'')
                 | NaN \<Rightarrow> False
                 | NegInf \<Rightarrow> False)) \<and>
             (\<forall>m. miles d = Fin m \<and> 0 < m \<and> booked_rate d = PosInf \<longrightarrow>
                r = Some (js ''Infinity'')) \<and>
             (\<forall>b. miles d = PosInf \<and> booked_rate d = Fin b \<and> 0 < b \<longrightarrow>
                r = Some (js ''0.00'')) \<and>
             (miles d = PosInf \<and> booked_rate d = PosInf \<longrightarrow> r = Some (js ''NaN'')))"
proof -
  let ?d = "load_data_of (map trim (split comma line))"
  let ?r = "rpm_of ts ?d"
  have finite: "(case round_double (b / m) of
                   Fin q \<Rightarrow>
                     0 \<le> q \<and>
                     (if q < 10 ^ 21
                      then (let n = nat \<lfloor>q * 100 + 1 / 2\<rfloor>
                            in ?r = Some (decimal (n div 100) @
                                         [46, 48 + n mod 100 div 10, 48 + n mod 10]) \<and>
                               \<bar>of_nat n / 100 - q\<bar> \<le> 1 / 200)
                      else ?r = Some (ts q))
                 | PosInf \<Rightarrow> ?r = Some (js ''Infinity'')
                 | NaN \<Rightarrow> False
                 | NegInf \<Rightarrow> False)"
    if "miles ?d = Fin m" "booked_rate ?d = Fin b" "0 < m" "0 < b" for m b
  proof -
    have r: "?r = Some (toFixed ts 2 (round_double (b / m)))"
      using that by (simp add: rpm_of_def)
    have "0 \<le> b / m" using that by simp
    then have nn: "non_negative (round_double (b / m))" by (rule round_double_non_negative)
    show ?thesis
    proof (cases "round_double (b / m)")
      case (Fin q)
      from nn Fin have q: "0 \<le> q" by (simp add: non_negative_def)
      from r Fin have r': "?r = Some (toFixed ts 2 (Fin q))" by simp
      show ?thesis
      proof (cases "q < 10 ^ 21")
        case True
        have "let n = nat \<lfloor>q * 100 + 1 / 2\<rfloor>
              in ?r = Some (decimal (n div 100) @
                           [46, 48 + n mod 100 div 10, 48 + n mod 10]) \<and>
                 \<bar>of_nat n / 100 - q\<bar> \<le> 1 / 200"
          unfolding Let_def
        proof (intro conjI)
          show "?r = Some (decimal (nat \<lfloor>q * 100 + 1 / 2\<rfloor> div 100) @
                   [46, 48 + nat \<lfloor>q * 100 + 1 / 2\<rfloor> mod 100 div 10,
                    48 + nat \<lfloor>q * 100 + 1 / 2\<rfloor> mod 10])"
            unfolding r' toFixed_2_finite [OF q True, of ts, unfolded Let_def] ..
          show "\<bar>of_nat (nat \<lfloor>q * 100 + 1 / 2\<rfloor>) / 100 - q\<bar> \<le> 1 / 200"
            using q by (rule round_half_up_close)
        qed
        with q True show ?thesis
          unfolding Fin by (simp only: number.case if_True simp_thms)
      next
        case False
        then have "10 ^ 21 \<le> q" by simp
        with q have "toFixed ts 2 (Fin q) = ts q" by (rule toFixed_2_large)
        with r' have "?r = Some (ts q)" by simp
        with q False show ?thesis
          unfolding Fin by (simp only: number.case if_False simp_thms)
      qed
    next
      case PosInf
      with r show ?thesis by (simp add: toFixed_not_finite)
    qed (use nn in \<open>simp_all add: non_negative_def\<close>)
  qed
  have inf1: "?r = Some (js ''Infinity'')"
    if "miles ?d = Fin m" "0 < m" "booked_rate ?d = PosInf" for m
    using that by (simp add: rpm_of_def toFixed_not_finite)
  have inf2: "?r = Some (js ''0.00'')"
    if "miles ?d = PosInf" "booked_rate ?d = Fin b" "0 < b" for b
    using that by (simp add: rpm_of_def toFixed_2_zero)
  have inf3: "?r = Some (js ''NaN'')" if "miles ?d = PosInf" "booked_rate ?d = PosInf"
    using that by (simp add: rpm_of_def toFixed_not_finite)
  have iff: "?r \<noteq> None \<longleftrightarrow> greater_than (miles ?d) (Fin 0) \<and> greater_than (booked_rate ?d) (Fin 0)"
    and present: "greater_than (miles ?d) (Fin 0) \<and> greater_than (booked_rate ?d) (Fin 0) \<longrightarrow>
                ?r = Some (toFixed ts 2 (divide_number (booked_rate ?d) (miles ?d)))"
    by (simp_all add: rpm_of_def)
  show ?thesis
    unfolding Let_def
    apply (intro conjI allI impI)
    subgoal using parse_reply_line [OF assms, of ts] by simp
    subgoal by (rule iff)
    subgoal by (rule greater_than_zero_iff)
    subgoal by (rule greater_than_zero_iff)
    subgoal using present by simp
    subgoal for m b by (elim conjE, rule finite [unfolded Let_def]; assumption)
    subgoal for m using inf1 [of m] by simp
    subgoal for b using inf2 [of b] by simp
    subgoal using inf3 by simp
    done
qed

theorem rate_per_mile_witness:
  "csv_line (js ''CSV LINE: A,,,,,,,,,,,500,0,1250.00'') = Some (js ''A,,,,,,,,,,,500,0,1250.00'') \<and>
   rpm_of (\<lambda>q. []) (load_data_of (map trim (split comma (js ''A,,,,,,,,,,,500,0,1250.00'')))) =
     Some (js ''2.50'') \<and>
   csv_line (js ''CSV LINE: A,,,,,,,,,,,0,0,1250.00'') = Some (js ''A,,,,,,,,,,,0,0,1250.00'') \<and>
   rpm_of (\<lambda>q. []) (load_data_of (map trim (split comma (js ''A,,,,,,,,,,,0,0,1250.00'')))) = None \<and>
   csv_line (js ''CSV LINE: A,,,,,,,,,,,500,0,0'') = Some (js ''A,,,,,,,,,,,500,0,0'') \<and>
   rpm_of (\<lambda>q. []) (load_data_of (map trim (split comma (js ''A,,,,,,,,,,,500,0,0'')))) = None \<and>
   csv_line (js ''CSV LINE: A,,,,,,,,,,,Infinity,0,5'') = Some (js ''A,,,,,,,,,,,Infinity,0,5'') \<and>
   rpm_of (\<lambda>q. []) (load_data_of (map trim (split comma (js ''A,,,,,,,,,,,Infinity,0,5'')))) =
     Some (js ''0.00'') \<and>
   csv_line (js ''CSV LINE: A,,,,,,,,,,,5,0,Infinity'') = Some (js ''A,,,,,,,,,,,5,0,Infinity'') \<and>
   rpm_of (\<lambda>q. []) (load_data_of (map trim (split comma (js ''A,,,,,,,,,,,5,0,Infinity'')))) =
     Some (js ''Infinity'')"
proof -
  have a: "csv_line (js ''CSV LINE: A,,,,,,,,,,,500,0,1250.00'') = Some (js ''A,,,,,,,,,,,500,0,1250.00'')"
    and b: "csv_line (js ''CSV LINE: A,,,,,,,,,,,0,0,1250.00'') = Some (js ''A,,,,,,,,,,,0,0,1250.00'')"
    and c: "csv_line (js ''CSV LINE: A,,,,,,,,,,,500,0,0'') = Some (js ''A,,,,,,,,,,,500,0,0'')"
    and d: "csv_line (js ''CSV LINE: A,,,,,,,,,,,Infinity,0,5'') = Some (js ''A,,,,,,,,,,,Infinity,0,5'')"
    and e: "csv_line (js ''CSV LINE: A,,,,,,,,,,,5,0,Infinity'') = Some (js ''A,,,,,,,,,,,5,0,Infinity'')"
    by (simp_all add: string_eval)
  have ne: "js ''A,,,,,,,,,,,500,0,1250.00'' \<noteq> []" "js ''A,,,,,,,,,,,0,0,1250.00'' \<noteq> []"
    "js ''A,,,,,,,,,,,500,0,0'' \<noteq> []" "js ''A,,,,,,,,,,,Infinity,0,5'' \<noteq> []"
    "js ''A,,,,,,,,,,,5,0,Infinity'' \<noteq> []"
    by (simp_all add: js_def)
  have m: "miles (load_data_of (map trim (split comma (js ''A,,,,,,,,,,,500,0,1250.00'')))) = Fin 500"
     "booked_rate (load_data_of (map trim (split comma (js ''A,,,,,,,,,,,500,0,1250.00'')))) = Fin 1250"
     "miles (load_data_of (map trim (split comma (js ''A,,,,,,,,,,,0,0,1250.00'')))) = Fin 0"
     "booked_rate (load_data_of (map trim (split comma (js ''A,,,,,,,,,,,500,0,0'')))) = Fin 0"
     "miles (load_data_of (map trim (split comma (js ''A,,,,,,,,,,,Infinity,0,5'')))) = PosInf"
     "booked_rate (load_data_of (map trim (split comma (js ''A,,,,,,,,,,,Infinity,0,5'')))) = Fin 5"
     "miles (load_data_of (map trim (split comma (js ''A,,,,,,,,,,,5,0,Infinity'')))) = Fin 5"
     "booked_rate (load_data_of (map trim (split comma (js ''A,,,,,,,,,,,5,0,Infinity'')))) = PosInf"
    by (simp_all add: string_eval number_eval load_data_of_def element_def)
  have t: "toFixed (\<lambda>q. []) 2 (divide_number (Fin 1250) (Fin 500)) = js ''2.50''"
    by (simp add: number_eval js_def)
  from rate_per_mile [OF a ne(1), of "\<lambda>q. []"] m t
  have "rpm_of (\<lambda>q. []) (load_data_of (map trim (split comma (js ''A,,,,,,,,,,,500,0,1250.00'')))) =
     Some (js ''2.50'')"
    unfolding Let_def by (elim conjE) simp
  moreover from rate_per_mile [OF b ne(2), of "\<lambda>q. []"] m
  have "rpm_of (\<lambda>q. []) (load_data_of (map trim (split comma (js ''A,,,,,,,,,,,0,0,1250.00'')))) = None"
    unfolding Let_def by (elim conjE) simp
  moreover from rate_per_mile [OF c ne(3), of "\<lambda>q. []"] m
  have "rpm_of (\<lambda>q. []) (load_data_of (map trim (split comma (js ''A,,,,,,,,,,,500,0,0'')))) = None"
    unfolding Let_def by (elim conjE) simp
  moreover from rate_per_mile [OF d ne(4), of "\<lambda>q. []"] m
  have "rpm_of (\<lambda>q. []) (load_data_of (map trim (split comma (js ''A,,,,,,,,,,,Infinity,0,5'')))) =
     Some (js ''0.00'')"
    unfolding Let_def by (elim conjE) simp
  moreover from rate_per_mile [OF e ne(5), of "\<lambda>q. []"] m
  have "rpm_of (\<lambda>q. []) (load_data_of (map trim (split comma (js ''A,,,,,,,,,,,5,0,Infinity'')))) =
     Some (js ''Infinity'')"
    unfolding Let_def by (elim conjE) simp
  ultimately show ?thesis using a b c d e by simp
qed

section \<open>The label is not found\<close>

lemma csv_line_None: "\<not> label_found CSV_LABEL aiResponse \<Longrightarrow> csv_line aiResponse = None"
  by (simp add: csv_line_def regex_match_None)

text \<open>
  C4. When the data-line label does not occur in the model's reply (no part of the
  reply is the label, letter case apart; the empty reply included), the parser answers with status 422, the
  error \<open>Could not extract data from PDF\<close> and the reply itself, unchanged, as \<open>raw\<close>;
  the body has no record. The handler's response after a model call that returned this
  reply is that response.
\<close>

theorem label_not_found:
  assumes "\<not> (\<exists>pre l' post. aiResponse = pre @ l' @ post \<and>
                map canonicalize l' = map canonicalize CSV_LABEL)"
  shows "parse_reply ts aiResponse =
           \<lparr> status = 422,
             body = Error_raw (js ''Could not extract data from PDF'') aiResponse \<rparr> \<and>
         (create_message e pdfBase64 = Text aiResponse \<longrightarrow>
            call_and_parse e pdfBase64 =
              (\<lparr> status = 422,
                 body = Error_raw (js ''Could not extract data from PDF'') aiResponse \<rparr>,
               [Model_call pdfBase64]))"
proof -
  have "\<not> label_found CSV_LABEL aiResponse" unfolding label_found_iff by (rule assms)
  then have "csv_line aiResponse = None" by (rule csv_line_None)
  then show ?thesis by (simp add: parse_reply_def call_and_parse_def)
qed

theorem label_not_found_witness:
  "\<not> label_found CSV_LABEL [] \<and>
   parse_reply (\<lambda>q. []) [] =
     \<lparr> status = 422, body = Error_raw (js ''Could not extract data from PDF'') [] \<rparr> \<and>
   \<not> label_found CSV_LABEL (js ''I cannot read this PDF.'') \<and>
   parse_reply (\<lambda>q. []) (js ''I cannot read this PDF.'') =
     \<lparr> status = 422,
       body = Error_raw (js ''Could not extract data from PDF'') (js ''I cannot read this PDF.'') \<rparr>"
proof -
  have a: "\<not> label_found CSV_LABEL []"
    and b: "\<not> label_found CSV_LABEL (js ''I cannot read this PDF.'')"
    by (simp_all add: string_eval)
  have a': "\<not> (\<exists>pre l' post. [] = pre @ l' @ post \<and>
                  map canonicalize l' = map canonicalize CSV_LABEL)"
    and b': "\<not> (\<exists>pre l' post. js ''I cannot read this PDF.'' = pre @ l' @ post \<and>
                  map canonicalize l' = map canonicalize CSV_LABEL)"
    using a b unfolding label_found_iff by blast+
  show ?thesis
    using a b label_not_found [OF a', of "\<lambda>q. []"] label_not_found [OF b', of "\<lambda>q. []"]
    by simp
qed


section \<open>The body of a success\<close>

text \<open>
  C10. The body of every response with status 200 to a delimited-text reply is the object
  with the four keys \<open>success\<close>, \<open>data\<close>, \<open>csvLine\<close> and \<open>rpm\<close>: \<open>data\<close> is the record of
  16 fields built from the data line, \<open>csvLine\<close> the data line, \<open>rpm\<close> the rate per mile
  of the record. The response is a function of the data line alone: two replies with the
  same data line get the same response whatever their invoice e-mail blocks, so the
  invoice e-mail of line 121 is in neither the response nor the record.
\<close>

theorem success_body:
  assumes "status (parse_reply ts aiResponse) = 200"
  shows "\<exists>line. csv_line aiResponse = Some line \<and> line \<noteq> [] \<and>
           parse_reply ts aiResponse =
             \<lparr> status = 200,
               body = Parsed \<lparr> success = True,
                               data = load_data_of (map trim (split comma line)),
                               csvLine = line,
                               rpm = rpm_of ts (load_data_of (map trim (split comma line))) \<rparr> \<rparr> \<and>
           (\<forall>other. csv_line other = Some line \<longrightarrow>
              parse_reply ts other = parse_reply ts aiResponse)"
  using assms by (auto simp: parse_reply_def Let_def split: option.splits if_splits)

theorem success_body_witness:
  "status (parse_reply (\<lambda>q. []) (js ''CSV LINE: A,B\<newline>INVOICE EMAIL: x@y.z'')) = 200 \<and>
   invoice_email (js ''CSV LINE: A,B\<newline>INVOICE EMAIL: x@y.z'') = Some (js ''x@y.z'') \<and>
   invoice_email (js ''CSV LINE: A,B\<newline>INVOICE EMAIL: other@y.z'') = Some (js ''other@y.z'') \<and>
   parse_reply (\<lambda>q. []) (js ''CSV LINE: A,B\<newline>INVOICE EMAIL: other@y.z'') =
     parse_reply (\<lambda>q. []) (js ''CSV LINE: A,B\<newline>INVOICE EMAIL: x@y.z'')"
proof -
  have s: "status (parse_reply (\<lambda>q. []) (js ''CSV LINE: A,B\<newline>INVOICE EMAIL: x@y.z'')) = 200"
    by (simp add: string_eval parse_reply_def Let_def)
  have l: "csv_line (js ''CSV LINE: A,B\<newline>INVOICE EMAIL: x@y.z'') = Some (js ''A,B'')"
    "csv_line (js ''CSV LINE: A,B\<newline>INVOICE EMAIL: other@y.z'') = Some (js ''A,B'')"
    by (simp_all add: string_eval)
  have i: "invoice_email (js ''CSV LINE: A,B\<newline>INVOICE EMAIL: x@y.z'') = Some (js ''x@y.z'')"
    "invoice_email (js ''CSV LINE: A,B\<newline>INVOICE EMAIL: other@y.z'') = Some (js ''other@y.z'')"
    by (simp_all add: string_eval)
  from success_body [OF s] l
  have "parse_reply (\<lambda>q. []) (js ''CSV LINE: A,B\<newline>INVOICE EMAIL: other@y.z'') =
     parse_reply (\<lambda>q. []) (js ''CSV LINE: A,B\<newline>INVOICE EMAIL: x@y.z'')"
    by auto
  with s i show ?thesis by simp
qed

section \<open>Data lines with fewer or more than 16 values\<close>

lemma element_take: "i < n \<Longrightarrow> element (take n fs) i = element fs i"
  by (simp add: element_def)

lemma load_data_of_take: "load_data_of (take 16 fs) = load_data_of fs"
  by (simp add: load_data_of_def element_take)

lemma parseFloat_undefined: "parseFloat (js ''undefined'') = NaN"
  by (simp add: string_eval number_eval)

lemma absent_element: "length fs \<le> i \<Longrightarrow> element fs i = None"
  by (simp add: element_def)

lemma absent_number: "or_zero (parseFloat_of None) = Fin 0"
  by (simp add: parseFloat_of_def parseFloat_undefined or_zero_def)

lemma absent_text: "or_empty None = []"
  by (simp add: or_empty_def)

text \<open>
  As stated, C3 fails on a data line that is blank: the label is found, what follows it
  is white space up to the end of the reply, the data line is the empty string (one empty
  value, fewer than 16) and \<open>!csvLine\<close> at line 123 answers 422.
\<close>

theorem blank_data_line_counterexample:
  "csv_line (js ''CSV LINE: '') = Some [] \<and>
   length (split comma []) < 16 \<and>
   parse_reply (number_to_string sample_env) (js ''CSV LINE: '') =
     \<lparr> status = 422,
       body = Error_raw (js ''Could not extract data from PDF'') (js ''CSV LINE: '') \<rparr>"
  by (simp add: string_eval parse_reply_def)

text \<open>
  C3 (amended). For every data line that is not empty, with any number of
  comma-separated values, parsing succeeds with status 200. Each text position from the
  number of values on is the empty string and each numeric position from there on is 0;
  the values after the sixteenth do not matter: the record is that of the first sixteen.
  Every reply whose data line is empty is answered with status 422, the error
  \<open>Could not extract data from PDF\<close> and the reply itself as \<open>raw\<close>.
\<close>

theorem short_and_long_data_lines:
  assumes "csv_line aiResponse = Some line"
  shows "(line = [] \<longrightarrow>
            parse_reply ts aiResponse =
              \<lparr> status = 422,
                body = Error_raw (js ''Could not extract data from PDF'') aiResponse \<rparr>) \<and>
         (line \<noteq> [] \<longrightarrow>
           (let fs = map trim (split comma line); d = load_data_of fs
            in parse_reply ts aiResponse =
               \<lparr> status = 200,
                 body = Parsed \<lparr> success = True, data = d, csvLine = line,
                                 rpm = rpm_of ts d \<rparr> \<rparr> \<and>
             (length fs \<le> 1 \<longrightarrow> pickup_date d = []) \<and>
             (length fs \<le> 2 \<longrightarrow> delivery_date d = []) \<and>
             (length fs \<le> 3 \<longrightarrow> broker_company d = []) \<and>
             (length fs \<le> 4 \<longrightarrow> contact d = []) \<and>
             (length fs \<le> 5 \<longrightarrow> phone d = []) \<and>
             (length fs \<le> 6 \<longrightarrow> extension d = []) \<and>
             (length fs \<le> 7 \<longrightarrow> email d = []) \<and>
             (length fs \<le> 8 \<longrightarrow> origin d = []) \<and>
             (length fs \<le> 9 \<longrightarrow> destination d = []) \<and>
             (length fs \<le> 10 \<longrightarrow> equipment d = []) \<and>
             (length fs \<le> 11 \<longrightarrow> miles d = Fin 0) \<and>
             (length fs \<le> 12 \<longrightarrow> posted_rate d = Fin 0) \<and>
             (length fs \<le> 13 \<longrightarrow> booked_rate d = Fin 0) \<and>
             (length fs \<le> 14 \<longrightarrow> shipper d = []) \<and>
             (length fs \<le> 15 \<longrightarrow> receiver d = []) \<and>
             d = load_data_of (take 16 fs)))"
proof (intro conjI impI)
  assume "line = []"
  with assms show "parse_reply ts aiResponse =
      \<lparr> status = 422,
        body = Error_raw (js ''Could not extract data from PDF'') aiResponse \<rparr>"
    by (simp add: parse_reply_def)
next
  assume "line \<noteq> []"
  with assms have "parse_reply ts aiResponse =
      \<lparr> status = 200,
        body = Parsed \<lparr> success = True, data = load_data_of (map trim (split comma line)),
                        csvLine = line,
                        rpm = rpm_of ts (load_data_of (map trim (split comma line))) \<rparr> \<rparr>"
    by (rule parse_reply_line)
  then show "let fs = map trim (split comma line); d = load_data_of fs
     in parse_reply ts aiResponse =
               \<lparr> status = 200,
                 body = Parsed \<lparr> success = True, data = d, csvLine = line,
                                 rpm = rpm_of ts d \<rparr> \<rparr> \<and>
             (length fs \<le> 1 \<longrightarrow> pickup_date d = []) \<and>
             (length fs \<le> 2 \<longrightarrow> delivery_date d = []) \<and>
             (length fs \<le> 3 \<longrightarrow> broker_company d = []) \<and>
             (length fs \<le> 4 \<longrightarrow> contact d = []) \<and>
             (length fs \<le> 5 \<longrightarrow> phone d = []) \<and>
             (length fs \<le> 6 \<longrightarrow> extension d = []) \<and>
             (length fs \<le> 7 \<longrightarrow> email d = []) \<and>
             (length fs \<le> 8 \<longrightarrow> origin d = []) \<and>
             (length fs \<le> 9 \<longrightarrow> destination d = []) \<and>
             (length fs \<le> 10 \<longrightarrow> equipment d = []) \<and>
             (length fs \<le> 11 \<longrightarrow> miles d = Fin 0) \<and>
             (length fs \<le> 12 \<longrightarrow> posted_rate d = Fin 0) \<and>
             (length fs \<le> 13 \<longrightarrow> booked_rate d = Fin 0) \<and>
             (length fs \<le> 14 \<longrightarrow> shipper d = []) \<and>
             (length fs \<le> 15 \<longrightarrow> receiver d = []) \<and>
             d = load_data_of (take 16 fs)"
    by (simp add: Let_def load_data_of_take)
      (simp add: load_data_of_def absent_element absent_number absent_text)
qed

theorem short_and_long_data_lines_witness:
  "csv_line (js ''CSV LINE: A,b,c,d,e,f,g,h,i,j'') = Some (js ''A,b,c,d,e,f,g,h,i,j'') \<and>
   parse_reply (\<lambda>q. []) (js ''CSV LINE: A,b,c,d,e,f,g,h,i,j'') =
     \<lparr> status = 200,
       body = Parsed
         \<lparr> success = True,
           data = \<lparr> id' = js ''A'', pickup_date = js ''b'', delivery_date = js ''c'',
                    broker_company = js ''d'', contact = js ''e'', phone = js ''f'',
                    extension = js ''g'', email = js ''h'', origin = js ''i'',
                    destination = js ''j'', equipment = [], miles = Fin 0,
                    posted_rate = Fin 0, booked_rate = Fin 0, shipper = [],
                    receiver = [] \<rparr>,
           csvLine = js ''A,b,c,d,e,f,g,h,i,j'', rpm = None \<rparr> \<rparr> \<and>
   csv_line (js ''CSV LINE: A,,,,,,,,,,,2,1,3,s,r,extra,more'') =
     Some (js ''A,,,,,,,,,,,2,1,3,s,r,extra,more'') \<and>
   parse_reply (\<lambda>q. []) (js ''CSV LINE: A,,,,,,,,,,,2,1,3,s,r,extra,more'') =
     \<lparr> status = 200,
       body = Parsed
         \<lparr> success = True,
           data = \<lparr> id' = js ''A'', pickup_date = [], delivery_date = [],
                    broker_company = [], contact = [], phone = [], extension = [],
                    email = [], origin = [], destination = [], equipment = [],
                    miles = Fin 2, posted_rate = Fin 1, booked_rate = Fin 3,
                    shipper = js ''s'', receiver = js ''r'' \<rparr>,
           csvLine = js ''A,,,,,,,,,,,2,1,3,s,r,extra,more'', rpm = Some (js ''1.50'') \<rparr> \<rparr> \<and>
   csv_line (js ''csv line:  \<newline>'') = Some [] \<and>
   parse_reply (\<lambda>q. []) (js ''csv line:  \<newline>'') =
     \<lparr> status = 422,
       body = Error_raw (js ''Could not extract data from PDF'')
                (js ''csv line:  \<newline>'') \<rparr>"
proof -
  have c: "csv_line (js ''csv line:  \<newline>'') = Some []"
    by (simp add: string_eval)
  have a: "csv_line (js ''CSV LINE: A,b,c,d,e,f,g,h,i,j'') = Some (js ''A,b,c,d,e,f,g,h,i,j'')"
    and b: "csv_line (js ''CSV LINE: A,,,,,,,,,,,2,1,3,s,r,extra,more'') =
              Some (js ''A,,,,,,,,,,,2,1,3,s,r,extra,more'')"
    by (simp_all add: string_eval)
  have ne: "js ''A,b,c,d,e,f,g,h,i,j'' \<noteq> []" "js ''A,,,,,,,,,,,2,1,3,s,r,extra,more'' \<noteq> []"
    by (simp_all add: js_def)
  have d: "load_data_of (map trim (split comma (js ''A,b,c,d,e,f,g,h,i,j''))) =
             \<lparr> id' = js ''A'', pickup_date = js ''b'', delivery_date = js ''c'',
               broker_company = js ''d'', contact = js ''e'', phone = js ''f'',
               extension = js ''g'', email = js ''h'', origin = js ''i'',
               destination = js ''j'', equipment = [], miles = Fin 0,
               posted_rate = Fin 0, booked_rate = Fin 0, shipper = [], receiver = [] \<rparr>"
    "load_data_of (map trim (split comma (js ''A,,,,,,,,,,,2,1,3,s,r,extra,more''))) =
             \<lparr> id' = js ''A'', pickup_date = [], delivery_date = [],
               broker_company = [], contact = [], phone = [], extension = [],
               email = [], origin = [], destination = [], equipment = [],
               miles = Fin 2, posted_rate = Fin 1, booked_rate = Fin 3,
               shipper = js ''s'', receiver = js ''r'' \<rparr>"
    by (simp_all add: string_eval number_eval load_data_of_def element_def or_empty_def)
  have r: "toFixed (\<lambda>q. []) 2 (divide_number (Fin 3) (Fin 2)) = js ''1.50''"
    by (simp add: number_eval js_def)
  show ?thesis
    using short_and_long_data_lines [OF a, of "\<lambda>q. []"]
      short_and_long_data_lines [OF b, of "\<lambda>q. []"]
      short_and_long_data_lines [OF c, of "\<lambda>q. []"] a b c r ne
    by (simp add: Let_def d rpm_of_def)
qed

section \<open>Dates\<close>

lemma trim_unchanged:
  assumes "s \<noteq> []" "\<not> is_space (hd s)" "\<not> is_space (last s)"
  shows "trim s = s"
proof -
  have "trim_start s = s" using assms by (cases s) (simp_all add: trim_start_def)
  moreover have "dropWhile is_space (rev s) = rev s"
    using assms by (cases "rev s") (simp_all add: hd_rev)
  ultimately show ?thesis by (simp add: trim_def trim_end_def)
qed

lemma digit_not_space: "is_digit c \<Longrightarrow> \<not> is_space c"
  by (auto simp: is_digit_def is_space_def)

lemma canonical_date_ends:
  assumes "is_canonical_date d"
  shows "d \<noteq> []" "is_digit (hd d)" "is_digit (last d)"
proof -
  have len: "length d = 10" using assms by (simp add: is_canonical_date_def)
  then show "d \<noteq> []" by auto
  have "list_all is_digit (take 4 d)" "list_all is_digit (drop 8 d)"
    using assms by (simp_all add: is_canonical_date_def)
  then have "\<forall>n<4. is_digit (d ! n)" "\<forall>n<2. is_digit (d ! (8 + n))"
    using len by (simp_all add: list_all_length)
  then have "is_digit (d ! 0)" "is_digit (d ! (8 + 1))"
    by (metis zero_less_numeral, metis one_less_numeral_iff semiring_norm(76))
  then show "is_digit (hd d)" "is_digit (last d)"
    using len \<open>d \<noteq> []\<close> by (simp_all add: hd_conv_nth last_conv_nth)
qed

lemma trim_canonical_date: "is_canonical_date d \<Longrightarrow> trim d = d"
  using canonical_date_ends [of d] by (intro trim_unchanged) (auto dest: digit_not_space)

text \<open>
  C9. The normalization that the pipeline applies to a date position is \<open>trim\<close> and the
  default \<open>''\<close>. In a reply made of the label, white space and a data line of at least
  three values, a pick-up date or a delivery date that is already in the format
  \<open>YYYY-MM-DD\<close> is in the record as it is in the reply.
\<close>

theorem canonical_date_unchanged:
  assumes "3 \<le> length vs"
    and "\<forall>v\<in>set vs. \<forall>c\<in>set v. c \<noteq> comma \<and> \<not> is_line_terminator c"
    and "rest = [] \<or> is_line_terminator (hd rest)"
    and "map canonicalize lbl = map canonicalize CSV_LABEL"
    and "\<forall>c\<in>set w. is_space c"
  shows "\<exists>p. body (parse_reply ts (lbl @ w @ join comma vs @ rest)) = Parsed p \<and>
           (is_canonical_date (vs ! 1) \<longrightarrow> pickup_date (data p) = vs ! 1) \<and>
           (is_canonical_date (vs ! 2) \<longrightarrow> delivery_date (data p) = vs ! 2)"
proof -
  have "2 \<le> length vs" using assms(1) by simp
  from parse_reply_values [OF this assms(2-5), of ts] assms(1)
  show ?thesis
    by (simp add: load_data_of_def element_def or_empty_Some trim_canonical_date)
qed

theorem canonical_date_unchanged_witness:
  "is_canonical_date (js ''2025-11-21'') \<and> is_canonical_date (js ''2025-11-24'') \<and>
   (\<exists>p. body (parse_reply (\<lambda>q. []) (js ''CSV LINE:\<newline>LD100,2025-11-21,2025-11-24'')) =
          Parsed p \<and>
        pickup_date (data p) = js ''2025-11-21'' \<and>
        delivery_date (data p) = js ''2025-11-24'')"
proof -
  let ?vs = "[js ''LD100'', js ''2025-11-21'', js ''2025-11-24'']"
  have c: "is_canonical_date (js ''2025-11-21'')" "is_canonical_date (js ''2025-11-24'')"
    by (simp_all add: is_canonical_date_def js_def is_digit_def)
  have h1: "3 \<le> length ?vs" by simp
  have h2: "\<forall>v\<in>set ?vs. \<forall>c\<in>set v. c \<noteq> comma \<and> \<not> is_line_terminator c"
    by (simp add: string_eval)
  have h3: "([]::js_string) = [] \<or> is_line_terminator (hd [])" by simp
  have h4: "map canonicalize (js ''CSV LINE:'') = map canonicalize CSV_LABEL"
    by (simp add: CSV_LABEL_def)
  have h5: "\<forall>c\<in>set [10]. is_space c" by (simp add: is_space_def)
  have e: "js ''CSV LINE:'' @ [10] @ join comma ?vs @ [] =
             js ''CSV LINE:\<newline>LD100,2025-11-21,2025-11-24''"
    by (simp add: js_def comma_def)
  show ?thesis
    using canonical_date_unchanged [OF h1 h2 h3 h4 h5, of "\<lambda>q. []", unfolded e] c
    by simp
qed

section \<open>Where and how the label is matched\<close>

lemma match_at_None: "match_literal l s = None \<Longrightarrow> match_at l s = None"
  by (simp add: match_at_def)

text \<open>
  As stated, C8 fails on a label in the middle of a line: neither regular expression has
  an anchor, and the label is recognized after other text.
\<close>

theorem label_mid_line_counterexample:
  "parse_reply (number_to_string sample_env) (js ''Here is the csv line: A,B'') =
     \<lparr> status = 200,
       body = Parsed
         \<lparr> success = True,
           data = \<lparr> id' = js ''A'', pickup_date = js ''B'', delivery_date = [],
                    broker_company = [], contact = [], phone = [], extension = [],
                    email = [], origin = [], destination = [], equipment = [],
                    miles = Fin 0, posted_rate = Fin 0, booked_rate = Fin 0,
                    shipper = [], receiver = [] \<rparr>,
           csvLine = js ''A,B'', rpm = None \<rparr> \<rparr> \<and>
   invoice_email (js ''send the invoice email: a@b.c'') = Some (js ''a@b.c'')"
  by (simp add: string_eval number_eval reply_eval)

text \<open>
  C8 (amended). The label match of both extractions is case-insensitive and not anchored:
  the first occurrence of the label in the text, in any letter case and at any position
  (also in the middle of a line, after any text in which no occurrence of the label
  starts), is the one recognized, and what is extracted is the text after it: white space
  is skipped, then the code units up to the next line terminator are taken and trimmed.
\<close>

theorem label_match:
  assumes "l = CSV_LABEL \<or> l = EMAIL_LABEL"
    and "map canonicalize lbl = map canonicalize l"
    and "\<forall>i<length pre. match_literal l (drop i (pre @ lbl @ w @ g @ rest)) = None"
    and "\<forall>c\<in>set w. is_space c"
    and "g \<noteq> []" and "\<not> is_space (hd g)" and "\<forall>c\<in>set g. \<not> is_line_terminator c"
    and "rest = [] \<or> is_line_terminator (hd rest)"
  shows "regex_match l (pre @ lbl @ w @ g @ rest) = Some g \<and>
         (l = CSV_LABEL \<longrightarrow> csv_line (pre @ lbl @ w @ g @ rest) = Some (trim g)) \<and>
         (l = EMAIL_LABEL \<longrightarrow> invoice_email (pre @ lbl @ w @ g @ rest) = Some (trim g))"
proof -
  have cap: "capture_dot_plus (g @ rest) = Some g"
    using assms(5,7,8) by (rule capture_dot_plus_line)
  have "space_star (w @ g @ rest) = Some g"
    using assms(4) cap assms(5,6) by (intro space_star_skip) auto
  then have "match_at l (lbl @ w @ g @ rest) = Some g"
    by (simp add: match_at_def match_literal_append [OF assms(2)])
  then have "regex_match l (lbl @ w @ g @ rest) = Some g"
    by (rule regex_match_here)
  moreover have "\<forall>i<length pre. match_at l (drop i (pre @ lbl @ w @ g @ rest)) = None"
    using assms(3) by (simp add: match_at_None)
  then have "regex_match l (pre @ lbl @ w @ g @ rest) = regex_match l (lbl @ w @ g @ rest)"
    by (rule regex_match_skip)
  ultimately show ?thesis by (auto simp: csv_line_def invoice_email_def)
qed

theorem label_match_witness:
  "map canonicalize (js ''Csv Line:'') = map canonicalize CSV_LABEL \<and>
   regex_match CSV_LABEL (js ''Here is the '' @ js ''Csv Line:'' @ js '' '' @ js ''A,B '' @ js ''\<newline>bye'') =
     Some (js ''A,B '') \<and>
   csv_line (js ''Here is the '' @ js ''Csv Line:'' @ js '' '' @ js ''A,B '' @ js ''\<newline>bye'') =
     Some (js ''A,B'')"
proof -
  have h1: "CSV_LABEL = CSV_LABEL \<or> CSV_LABEL = EMAIL_LABEL" by simp
  have h2: "map canonicalize (js ''Csv Line:'') = map canonicalize CSV_LABEL"
    by (simp add: string_eval)
  have h3: "\<forall>i<length (js ''Here is the '').
              match_literal CSV_LABEL
                (drop i (js ''Here is the '' @ js ''Csv Line:'' @ js '' '' @ js ''A,B '' @ js ''\<newline>bye'')) = None"
    by (simp add: string_eval All_less_Suc2)
  have h4: "\<forall>c\<in>set (js '' ''). is_space c" by (simp add: string_eval)
  have h5: "js ''A,B '' \<noteq> []" and h6: "\<not> is_space (hd (js ''A,B ''))"
    and h7: "\<forall>c\<in>set (js ''A,B ''). \<not> is_line_terminator c"
    and h8: "js ''\<newline>bye'' = [] \<or> is_line_terminator (hd (js ''\<newline>bye''))"
    by (simp_all add: string_eval)
  have t: "trim (js ''A,B '') = js ''A,B''" by (simp add: string_eval)
  show ?thesis
    using label_match [OF h1 h2 h3 h4 h5 h6 h7 h8] h2 t by simp
qed

section \<open>The numeric positions\<close>

lemma or_zero_not_NaN: "or_zero v \<noteq> NaN"
  by (simp add: or_zero_def)

lemma or_zero_non_negative: "v = NaN \<or> non_negative v \<Longrightarrow> non_negative (or_zero v)"
  by (auto simp: or_zero_def non_negative_def)

lemma pow10_pos: "0 < pow10 e"
  by (simp add: pow10_def)

lemma unsigned_literal_non_negative: "unsigned_literal s = Some (Decimal v) \<Longrightarrow> 0 \<le> v"
  using pow10_pos less_imp_le
  by (auto simp: unsigned_literal_def Let_def split: if_splits list.splits
           intro!: mult_nonneg_nonneg)

lemma signed_literal_no_minus:
  "t = [] \<or> hd t \<noteq> 45 \<Longrightarrow> signed_literal t = Some (negative, lit) \<Longrightarrow> \<not> negative"
  by (cases t) (auto simp: signed_literal_def split: if_splits)

lemma signed_literal_unsigned:
  "signed_literal t = Some (False, lit) \<Longrightarrow> \<exists>r. unsigned_literal r = Some lit"
  by (cases t) (auto simp: signed_literal_def split: if_splits)

lemma parseFloat_no_minus:
  assumes "trim_start s = [] \<or> hd (trim_start s) \<noteq> 45"
  shows "parseFloat s = NaN \<or> non_negative (parseFloat s)"
proof (cases "signed_literal (trim_start s)")
  case None
  then show ?thesis by (simp add: parseFloat_def)
next
  case (Some a)
  obtain negative lit where a: "a = (negative, lit)" by (cases a)
  then have pos: "\<not> negative" using signed_literal_no_minus [OF assms] Some by simp
  show ?thesis
  proof (cases lit)
    case Infinity
    then show ?thesis using Some a pos by (simp add: parseFloat_def non_negative_def)
  next
    case (Decimal v)
    have "signed_literal (trim_start s) = Some (False, Decimal v)"
      using Some a pos Decimal by simp
    then obtain r where "unsigned_literal r = Some (Decimal v)"
      using signed_literal_unsigned by blast
    then have "0 \<le> v" by (rule unsigned_literal_non_negative)
    then show ?thesis
      using Some a pos Decimal by (simp add: parseFloat_def round_double_non_negative)
  qed
qed

lemma no_literal:
  assumes "t = [] \<or> (\<not> is_digit (hd t) \<and> hd t \<noteq> 43 \<and> hd t \<noteq> 45 \<and> hd t \<noteq> 46 \<and> hd t \<noteq> 73)"
  shows "signed_literal t = None"
proof (cases t)
  case Nil
  then show ?thesis by (simp add: signed_literal_def)
next
  case (Cons c r)
  then have c: "\<not> is_digit c" "c \<noteq> 43" "c \<noteq> 45" "c \<noteq> 46" "c \<noteq> 73" using assms by auto
  then have "take 8 (c # r) \<noteq> js ''Infinity''" by (auto simp: js_def take_Cons')
  then have "unsigned_literal (c # r) = None"
    using c by (simp add: unsigned_literal_def)
  then show ?thesis using Cons c by (simp add: signed_literal_def)
qed

lemma negate_negate: "negate (negate v) = v"
  by (cases v) (simp_all add: negate_def)

lemma negate_simps:
  "negate NaN = NaN" "negate PosInf = NegInf" "negate NegInf = PosInf" "negate (Fin q) = Fin (- q)"
  by (simp_all add: negate_def)

lemma round_double_negate: "round_double (- x) = negate (round_double x)"
  by (simp add: round_double_def negate_negate negate_simps)

lemma or_zero_negate: "or_zero (negate v) = negate (or_zero v)"
  by (cases v) (simp_all add: or_zero_def negate_def)

lemma signed_literal_no_sign:
  assumes "r = [] \<or> (hd r \<noteq> 45 \<and> hd r \<noteq> 43)"
  shows "signed_literal r = map_option (Pair False) (unsigned_literal r)"
proof (cases r)
  case Nil
  then show ?thesis by (simp add: signed_literal_def unsigned_literal_def js_def)
next
  case (Cons c t)
  then show ?thesis using assms by (simp add: signed_literal_def)
qed

lemma trim_start_no_space: "r = [] \<or> \<not> is_space (hd r) \<Longrightarrow> trim_start r = r"
  by (cases r) (simp_all add: trim_start_def)

lemma parseFloat_minus:
  assumes "trim_start s = 45 # r"
    and "r = [] \<or> (\<not> is_space (hd r) \<and> hd r \<noteq> 45 \<and> hd r \<noteq> 43)"
  shows "parseFloat s = negate (parseFloat r)"
proof -
  have r: "trim_start r = r" using assms(2) by (intro trim_start_no_space) auto
  have "signed_literal r = map_option (Pair False) (unsigned_literal r)"
    using assms(2) by (intro signed_literal_no_sign) auto
  moreover have "signed_literal (45 # r) = map_option (Pair True) (unsigned_literal r)"
    by (simp add: signed_literal_def)
  ultimately show ?thesis
    using assms(1) r
    by (cases "unsigned_literal r")
       (auto simp: parseFloat_def negate_simps round_double_negate split: literal.splits)
qed

lemma takeWhile_digits:
  assumes "list_all is_digit ds" "rest = [] \<or> \<not> is_digit (hd rest)"
  shows "takeWhile is_digit (ds @ rest) = ds" "dropWhile is_digit (ds @ rest) = rest"
proof -
  have ds: "\<forall>c\<in>set ds. is_digit c" using assms(1) by (simp add: list_all_iff)
  have "takeWhile is_digit rest = []" "dropWhile is_digit rest = rest"
    using assms(2) by (cases rest; simp)+
  with ds show "takeWhile is_digit (ds @ rest) = ds" "dropWhile is_digit (ds @ rest) = rest"
    by (simp_all add: takeWhile_append2 dropWhile_append2)
qed

lemma parseFloat_digits:
  assumes "trim_start s = ds @ rest" and "ds \<noteq> []" and "list_all is_digit ds"
    and "rest = [] \<or> (\<not> is_digit (hd rest) \<and> hd rest \<noteq> 46 \<and> hd rest \<noteq> 101 \<and> hd rest \<noteq> 69)"
  shows "parseFloat s = round_double (of_nat (digits_value ds))"
proof -
  obtain d ds' where ds: "ds = d # ds'" using assms(2) by (cases ds) auto
  then have d: "is_digit d" using assms(3) by simp
  then have d': "d \<noteq> 45" "d \<noteq> 43" "d \<noteq> 73" by (auto simp: is_digit_def)
  have tw: "takeWhile is_digit (ds @ rest) = ds" "dropWhile is_digit (ds @ rest) = rest"
    using assms(3,4) by (auto intro!: takeWhile_digits)
  have inf: "take 8 (ds @ rest) \<noteq> js ''Infinity''"
    using ds d' by (simp add: js_def take_Cons')
  have u: "unsigned_literal (ds @ rest) =
        (case rest of
           [] \<Rightarrow> Some (Decimal (of_nat (digits_value ds)))
         | c # r' \<Rightarrow>
             if c = 46 then
               (let fp = takeWhile is_digit r'; r'' = dropWhile is_digit r'
                in Some (Decimal (of_nat (digits_value (ds @ fp)) *
                                  pow10 (exponent_part r'' - int (length fp)))))
             else Some (Decimal (of_nat (digits_value ds) * pow10 (exponent_part rest))))"
    unfolding unsigned_literal_def tw Let_def using inf assms(2)
    by (simp split: list.splits)
  have "unsigned_literal (ds @ rest) = Some (Decimal (of_nat (digits_value ds)))"
  proof (cases rest)
    case Nil
    then show ?thesis unfolding u by simp
  next
    case (Cons c r')
    then have "exponent_part rest = 0" "c \<noteq> 46"
      using assms(4) by (simp_all add: exponent_part_def)
    then show ?thesis unfolding u using Cons by (simp add: pow10_def)
  qed
  moreover have "signed_literal (ds @ rest) = map_option (Pair False) (unsigned_literal (ds @ rest))"
    using ds d' by (intro signed_literal_no_sign) simp
  ultimately show ?thesis using assms(1) by (simp add: parseFloat_def)
qed

text \<open>
  As stated, C5 fails on a number written with a minus sign: \<open>parseFloat\<close> reads the sign
  and \<open>|| 0\<close> keeps every number that is neither \<open>NaN\<close> nor zero.
\<close>

theorem negative_miles_counterexample:
  "parse_reply (number_to_string sample_env) (js ''CSV LINE: A,,,,,,,,,,,-5,0,2000'') =
     \<lparr> status = 200,
       body = Parsed
         \<lparr> success = True,
           data = \<lparr> id' = js ''A'', pickup_date = [], delivery_date = [],
                    broker_company = [], contact = [], phone = [], extension = [],
                    email = [], origin = [], destination = [], equipment = [],
                    miles = Fin (- 5), posted_rate = Fin 0, booked_rate = Fin 2000,
                    shipper = [], receiver = [] \<rparr>,
           csvLine = js ''A,,,,,,,,,,,-5,0,2000'', rpm = None \<rparr> \<rparr> \<and>
   \<not> non_negative (Fin (- 5))"
  by (simp add: string_eval number_eval reply_eval non_negative_def)

text \<open>
  C5 (amended). The value of each numeric position of the record (miles, posted rate,
  booked rate) is \<open>parseFloat\<close> of the text at the position, with 0 for \<open>NaN\<close>. It is
  never \<open>NaN\<close>. It is 0 when the position is absent, when no prefix of the text (after
  white space) is a decimal literal, and in particular when the text is blank or starts
  with a code unit that is no digit, sign, point or \<open>I\<close>. A text that starts (after white
  space) with digits, followed by the end of the text or by a code unit that is no digit,
  point, \<open>e\<close> or \<open>E\<close>, has the value of those digits, whatever follows: \<open>12 Main St\<close> gives
  12. The value is not negative when the text does not start, after white space, with a
  minus sign. A minus sign is kept: the value of a text with a minus sign before a text
  \<open>r\<close> (that does not start with white space or a sign) is the negation of the value of
  \<open>r\<close>, which is not negative.
\<close>

theorem numeric_positions:
  "miles (load_data_of fs) = or_zero (parseFloat_of (element fs 11)) \<and>
   posted_rate (load_data_of fs) = or_zero (parseFloat_of (element fs 12)) \<and>
   booked_rate (load_data_of fs) = or_zero (parseFloat_of (element fs 13)) \<and>
   (\<forall>f. or_zero (parseFloat_of f) \<noteq> NaN \<and>
        (f = None \<longrightarrow> or_zero (parseFloat_of f) = Fin 0) \<and>
        (\<forall>s. f = Some s \<and> signed_literal (trim_start s) = None \<longrightarrow>
             or_zero (parseFloat_of f) = Fin 0) \<and>
        (\<forall>s. f = Some s \<and>
             (trim_start s = [] \<or>
              (\<not> is_digit (hd (trim_start s)) \<and> hd (trim_start s) \<noteq> 43 \<and>
               hd (trim_start s) \<noteq> 45 \<and> hd (trim_start s) \<noteq> 46 \<and>
               hd (trim_start s) \<noteq> 73)) \<longrightarrow>
             or_zero (parseFloat_of f) = Fin 0) \<and>
        (\<forall>s. f = Some s \<and> (trim_start s = [] \<or> hd (trim_start s) \<noteq> 45) \<longrightarrow>
             non_negative (or_zero (parseFloat_of f))) \<and>
        (\<forall>s ds rest.
             f = Some s \<and> trim_start s = ds @ rest \<and> ds \<noteq> [] \<and> list_all is_digit ds \<and>
             (rest = [] \<or>
              (\<not> is_digit (hd rest) \<and> hd rest \<noteq> 46 \<and> hd rest \<noteq> 101 \<and> hd rest \<noteq> 69)) \<longrightarrow>
             or_zero (parseFloat_of f) = or_zero (round_double (of_nat (digits_value ds)))) \<and>
        (\<forall>s r. f = Some s \<and> trim_start s = 45 # r \<and>
             (r = [] \<or> (\<not> is_space (hd r) \<and> hd r \<noteq> 45 \<and> hd r \<noteq> 43)) \<longrightarrow>
             or_zero (parseFloat_of f) = negate (or_zero (parseFloat r)) \<and>
             non_negative (or_zero (parseFloat r))))"
proof -
  have n1: "or_zero (parseFloat_of f) \<noteq> NaN" for f by (rule or_zero_not_NaN)
  have n2: "or_zero (parseFloat_of None) = Fin 0" by (rule absent_number)
  have n3: "or_zero (parseFloat_of (Some s)) = Fin 0" if "signed_literal (trim_start s) = None" for s
    using that by (simp add: parseFloat_of_def parseFloat_def or_zero_def)
  have n4: "or_zero (parseFloat_of (Some s)) = Fin 0"
    if "trim_start s = [] \<or>
          (\<not> is_digit (hd (trim_start s)) \<and> hd (trim_start s) \<noteq> 43 \<and>
           hd (trim_start s) \<noteq> 45 \<and> hd (trim_start s) \<noteq> 46 \<and>
           hd (trim_start s) \<noteq> 73)" for s
    using no_literal [OF that] by (rule n3)
  have n5: "non_negative (or_zero (parseFloat_of (Some s)))"
    if "trim_start s = [] \<or> hd (trim_start s) \<noteq> 45" for s
    using parseFloat_no_minus [OF that] by (simp add: parseFloat_of_def or_zero_non_negative)
  have n6: "or_zero (parseFloat_of (Some s)) = or_zero (round_double (of_nat (digits_value ds)))"
    if "trim_start s = ds @ rest" "ds \<noteq> []" "list_all is_digit ds"
      "rest = [] \<or> (\<not> is_digit (hd rest) \<and> hd rest \<noteq> 46 \<and> hd rest \<noteq> 101 \<and> hd rest \<noteq> 69)"
    for s ds rest
    using parseFloat_digits [OF that] by (simp add: parseFloat_of_def)
  have n7: "or_zero (parseFloat_of (Some s)) = negate (or_zero (parseFloat r)) \<and>
            non_negative (or_zero (parseFloat r))"
    if "trim_start s = 45 # r" "r = [] \<or> (\<not> is_space (hd r) \<and> hd r \<noteq> 45 \<and> hd r \<noteq> 43)"
    for s r
  proof -
    have "trim_start r = r" using that(2) by (intro trim_start_no_space) auto
    then have "trim_start r = [] \<or> hd (trim_start r) \<noteq> 45" using that(2) by auto
    then have "non_negative (or_zero (parseFloat r))"
      using parseFloat_no_minus [of r] by (simp add: or_zero_non_negative)
    then show ?thesis
      using parseFloat_minus [OF that] by (simp add: parseFloat_of_def or_zero_negate)
  qed
  show ?thesis
  proof (intro conjI allI impI)
    fix f s ds rest
    assume "f = Some s \<and> trim_start s = ds @ rest \<and> ds \<noteq> [] \<and> list_all is_digit ds \<and>
             (rest = [] \<or>
              (\<not> is_digit (hd rest) \<and> hd rest \<noteq> 46 \<and> hd rest \<noteq> 101 \<and> hd rest \<noteq> 69))"
    then show "or_zero (parseFloat_of f) = or_zero (round_double (of_nat (digits_value ds)))"
      using n6 [of s ds rest] by simp
  next
    fix f s r
    assume *: "f = Some s \<and> trim_start s = 45 # r \<and>
             (r = [] \<or> (\<not> is_space (hd r) \<and> hd r \<noteq> 45 \<and> hd r \<noteq> 43))"
    then show "or_zero (parseFloat_of f) = negate (or_zero (parseFloat r))"
      using n7 [of s r] by simp
    from * show "non_negative (or_zero (parseFloat r))"
      using n7 [of s r] by simp
  qed (simp_all add: load_data_of_def n1 n2 n3 n4 n5)
qed

theorem numeric_positions_witness:
  "miles (load_data_of [js ''A'']) = Fin 0 \<and>
   or_zero (parseFloat_of (Some (js ''n/a''))) = Fin 0 \<and>
   non_negative (or_zero (parseFloat_of (Some (js '' 12.5 miles'')))) \<and>
   or_zero (parseFloat_of (Some (js ''12 Main St''))) = Fin 12 \<and>
   or_zero (parseFloat_of (Some (js ''2025-11-21''))) = Fin 2025 \<and>
   or_zero (parseFloat_of (Some (js '' -7.5''))) = Fin (- (15 / 2))"
proof -
  have a: "element [js ''A''] 11 = None" by (simp add: element_def)
  have b: "trim_start (js ''n/a'') = [] \<or>
              (\<not> is_digit (hd (trim_start (js ''n/a''))) \<and> hd (trim_start (js ''n/a'')) \<noteq> 43 \<and>
               hd (trim_start (js ''n/a'')) \<noteq> 45 \<and> hd (trim_start (js ''n/a'')) \<noteq> 46 \<and>
               hd (trim_start (js ''n/a'')) \<noteq> 73)"
    by (simp add: string_eval is_digit_def)
  have c: "trim_start (js '' 12.5 miles'') = [] \<or> hd (trim_start (js '' 12.5 miles'')) \<noteq> 45"
    by (simp add: string_eval)
  have d: "trim_start (js ''12 Main St'') = js ''12'' @ js '' Main St''" "js ''12'' \<noteq> []"
    "list_all is_digit (js ''12'')"
    "js '' Main St'' = [] \<or>
     (\<not> is_digit (hd (js '' Main St'')) \<and> hd (js '' Main St'') \<noteq> 46 \<and>
      hd (js '' Main St'') \<noteq> 101 \<and> hd (js '' Main St'') \<noteq> 69)"
    "or_zero (round_double (of_nat (digits_value (js ''12'')))) = Fin 12"
    by (simp_all add: string_eval number_eval)
  have e: "trim_start (js ''2025-11-21'') = js ''2025'' @ js ''-11-21''" "js ''2025'' \<noteq> []"
    "list_all is_digit (js ''2025'')"
    "js ''-11-21'' = [] \<or>
     (\<not> is_digit (hd (js ''-11-21'')) \<and> hd (js ''-11-21'') \<noteq> 46 \<and>
      hd (js ''-11-21'') \<noteq> 101 \<and> hd (js ''-11-21'') \<noteq> 69)"
    "or_zero (round_double (of_nat (digits_value (js ''2025'')))) = Fin 2025"
    by (simp_all add: string_eval number_eval)
  have f: "trim_start (js '' -7.5'') = 45 # js ''7.5''"
    "js ''7.5'' = [] \<or>
     (\<not> is_space (hd (js ''7.5'')) \<and> hd (js ''7.5'') \<noteq> 45 \<and> hd (js ''7.5'') \<noteq> 43)"
    "negate (or_zero (parseFloat (js ''7.5''))) = Fin (- (15 / 2))"
    by (simp_all add: string_eval number_eval)
  note np = numeric_positions [of "[js ''A'']"]
  have "miles (load_data_of [js ''A'']) = Fin 0"
    "or_zero (parseFloat_of (Some (js ''n/a''))) = Fin 0"
    "non_negative (or_zero (parseFloat_of (Some (js '' 12.5 miles''))))"
    using np a b c by simp_all
  moreover have "or_zero (parseFloat_of (Some (js ''12 Main St''))) = Fin 12"
    using np [THEN conjunct2, THEN conjunct2, THEN conjunct2, THEN spec, THEN conjunct2,
        THEN conjunct2, THEN conjunct2, THEN conjunct2, THEN conjunct2, THEN conjunct1,
        rule_format, of "Some (js ''12 Main St'')" "js ''12 Main St''" "js ''12''" "js '' Main St''"]
      d
    by simp
  moreover have "or_zero (parseFloat_of (Some (js ''2025-11-21''))) = Fin 2025"
    using np [THEN conjunct2, THEN conjunct2, THEN conjunct2, THEN spec, THEN conjunct2,
        THEN conjunct2, THEN conjunct2, THEN conjunct2, THEN conjunct2, THEN conjunct1,
        rule_format, of "Some (js ''2025-11-21'')" "js ''2025-11-21''" "js ''2025''" "js ''-11-21''"]
      e
    by simp
  moreover have "or_zero (parseFloat_of (Some (js '' -7.5''))) = Fin (- (15 / 2))"
    using np [THEN conjunct2, THEN conjunct2, THEN conjunct2, THEN spec, THEN conjunct2,
        THEN conjunct2, THEN conjunct2, THEN conjunct2, THEN conjunct2, THEN conjunct2,
        rule_format, of "Some (js '' -7.5'')" "js '' -7.5''" "js ''7.5''"]
      f
    by simp
  ultimately show ?thesis by simp
qed

section \<open>The JSON handler\<close>

lemma loadRecord_rate:
  "property (loadRecord e user loadData fileName) (js ''rate'') =
     or_null (property loadData (js ''rate''))"
  by (simp add: loadRecord_def property_def js_def)

lemma loadRecord_miles:
  "property (loadRecord e user loadData fileName) (js ''miles'') =
     or_null (property loadData (js ''miles''))"
  by (simp add: loadRecord_def property_def js_def)

lemma property_absent: "map_of kvs k = None \<Longrightarrow> or_null (property (Obj kvs) k) = Null"
  by (simp add: property_def or_null_def)

text \<open>
  As stated, C6 fails on the reply \<open>{}\<close>: the record that is inserted has \<open>rate: null\<close>,
  not 0; every field of the record is built with \<open>|| null\<close> (lines 289 to 305).
\<close>

theorem rate_null_counterexample:
  "handler_json sample_env
     \<lparr> req_method = js ''POST'', authorization = Some (js ''Bearer t0''),
       req_body = Obj [(js ''pdfBase64'', Str (js ''JVBERi0x''))] \<rparr> =
     (\<lparr> json_status = 200,
        json_body = Saved (loadRecord sample_env sample_user (Obj []) Undefined) (Obj []) \<rparr>,
      [Model_call (Str (js ''JVBERi0x'')),
       Insert (loadRecord sample_env sample_user (Obj []) Undefined)]) \<and>
   property (loadRecord sample_env sample_user (Obj []) Undefined) (js ''rate'') = Null \<and>
   Null \<noteq> Num (Fin 0)"
  by (simp add: handler_json_def verifyUser_def sample_env_def sample_user_def nullish_def
        property_def Let_def trim_def trim_start_def trim_end_def is_space_def loadRecord_def
        or_null_def js_def)

text \<open>
  C6 (amended). For an authorized \<open>POST\<close> with a document, when the model's reply to the
  JSON contract parses as a JSON object without the key \<open>rate\<close>, the record that is
  inserted has \<open>rate\<close> defaulted to \<open>null\<close> (and \<open>miles\<close> to \<open>null\<close> when that key is absent
  too), the response is a success with the stored row and the parsed object when the
  insertion succeeds, and no rate per mile is computed on this path; when the reply does
  not parse as JSON the response is the error \<open>Failed to parse rate confirmation data\<close>
  with status 500.
\<close>

theorem json_reply_without_rate:
  assumes "req_method req = js ''POST''"
    and "verifyUser e (authorization req) = Inr user"
    and "\<not> nullish (req_body req)"
    and "truthy (property (req_body req) (js ''pdfBase64''))"
    and "create_message_json e (property (req_body req) (js ''pdfBase64'')) = Text t"
  shows "(json_parse e (trim t) = None \<longrightarrow>
            handler_json e req =
              (\<lparr> json_status = 500,
                 json_body = Json_error (js ''Failed to parse rate confirmation data'') \<rparr>,
               [Model_call (property (req_body req) (js ''pdfBase64''))])) \<and>
         (\<forall>kvs. json_parse e (trim t) = Some (Obj kvs) \<and> map_of kvs (js ''rate'') = None \<longrightarrow>
            (let r = loadRecord e user (Obj kvs) (property (req_body req) (js ''fileName''))
             in property r (js ''rate'') = Null \<and>
                (map_of kvs (js ''miles'') = None \<longrightarrow> property r (js ''miles'') = Null) \<and>
                (\<forall>stored. insert_load e r = Some stored \<longrightarrow>
                   handler_json e req =
                     (\<lparr> json_status = 200, json_body = Saved stored (Obj kvs) \<rparr>,
                      [Model_call (property (req_body req) (js ''pdfBase64'')), Insert r])) \<and>
                (insert_load e r = None \<longrightarrow>
                   handler_json e req =
                     (\<lparr> json_status = 500,
                        json_body = Json_error (js ''Failed to save load to database'') \<rparr>,
                      [Model_call (property (req_body req) (js ''pdfBase64'')), Insert r]))))"
proof -
  have m: "req_method req \<noteq> js ''OPTIONS''" using assms(1) by (simp add: js_def)
  show ?thesis
    using assms m
    by (simp add: handler_json_def Let_def loadRecord_rate loadRecord_miles property_absent
          nullish_def)
qed

theorem json_reply_without_rate_witness:
  "handler_json sample_env
     \<lparr> req_method = js ''POST'', authorization = Some (js ''Bearer t0''),
       req_body = Obj [(js ''pdfBase64'', Str (js ''JVBERi0x'')),
                       (js ''fileName'', Str (js ''rc.pdf''))] \<rparr> =
     (\<lparr> json_status = 200,
        json_body = Saved (loadRecord sample_env sample_user (Obj []) (Str (js ''rc.pdf'')))
                          (Obj []) \<rparr>,
      [Model_call (Str (js ''JVBERi0x'')),
       Insert (loadRecord sample_env sample_user (Obj []) (Str (js ''rc.pdf'')))]) \<and>
   property (loadRecord sample_env sample_user (Obj []) (Str (js ''rc.pdf''))) (js ''rate'') = Null \<and>
   property (loadRecord sample_env sample_user (Obj []) (Str (js ''rc.pdf''))) (js ''miles'') = Null"
proof -
  let ?req = "\<lparr> req_method = js ''POST'', authorization = Some (js ''Bearer t0''),
       req_body = Obj [(js ''pdfBase64'', Str (js ''JVBERi0x'')),
                       (js ''fileName'', Str (js ''rc.pdf''))] \<rparr>"
  have p: "property (req_body ?req) (js ''pdfBase64'') = Str (js ''JVBERi0x'')"
    "property (req_body ?req) (js ''fileName'') = Str (js ''rc.pdf'')"
    by (simp_all add: property_def js_def)
  have h1: "req_method ?req = js ''POST''" by simp
  have h2: "verifyUser sample_env (authorization ?req) = Inr sample_user"
    by (simp add: verifyUser_def sample_env_def sample_user_def js_def)
  have h3: "\<not> nullish (req_body ?req)" by (simp add: nullish_def)
  have h4: "truthy (property (req_body ?req) (js ''pdfBase64''))"
    by (simp add: property_def js_def)
  have h5: "create_message_json sample_env (property (req_body ?req) (js ''pdfBase64'')) =
              Text (js ''{}'')"
    by (simp add: sample_env_def)
  have j: "json_parse sample_env (trim (js ''{}'')) = Some (Obj [])"
    by (simp add: sample_env_def trim_def trim_start_def trim_end_def is_space_def js_def)
  have i: "insert_load sample_env r = Some r" for r by (simp add: sample_env_def)
  show ?thesis
    using json_reply_without_rate [OF h1 h2 h3 h4 h5] j i p
    by (simp add: Let_def)
qed

section \<open>Requests without a document\<close>

text \<open>
  C7. For every request without a document (\<open>pdfBase64\<close> missing or falsy) no call to
  the model is made, by either delimited-text handler. Such a \<open>POST\<close> that passes the
  handler's access check (a bearer token that \<open>verifyUser\<close> accepts; the password of the
  environment) and has a body is answered at once with status 400 and the error
  \<open>No PDF data provided\<close>, the failure of the kind \<open>InvalidInput\<close>. A \<open>POST\<close> with no body
  at all (\<open>req.body\<close> is \<open>undefined\<close> or \<open>null\<close>) has no document either, and there the
  code departs from the claim: the destructuring of lines 77 and 380 throws a \<open>TypeError\<close>
  inside the \<open>try\<close> block, and the \<open>catch\<close> of lines 165 and 474 answers status 500 with
  the error \<open>Failed to parse PDF\<close> and the engine's message as details, where the check
  of lines 79 and 388 would have answered 400. In the password handler this happens
  before the password is compared.
\<close>

theorem no_document_request:
  assumes "\<not> truthy (property (req_body req) (js ''pdfBase64''))"
  shows "snd (handler e req) = [] \<and> snd (handler_password e req) = [] \<and>
         (req_method req = js ''POST'' \<and> (\<exists>user. verifyUser e (authorization req) = Inr user) \<longrightarrow>
            handler e req =
              (if nullish (req_body req)
               then (\<lparr> status = 500,
                       body = Error_details (js ''Failed to parse PDF'')
                                (destructure_message e (req_body req)) \<rparr>, [])
               else (\<lparr> status = 400, body = Error (js ''No PDF data provided'') \<rparr>, []))) \<and>
         (req_method req = js ''POST'' \<and> nullish (req_body req) \<longrightarrow>
            handler_password e req =
              (\<lparr> status = 500,
                 body = Error_details (js ''Failed to parse PDF'')
                          (destructure_message e (req_body req)) \<rparr>, [])) \<and>
         (req_method req = js ''POST'' \<and> \<not> nullish (req_body req) \<and>
          property (req_body req) (js ''password'') =
            Str (case app_password e of
                   None \<Rightarrow> js ''milian2024''
                 | Some p \<Rightarrow> if p \<noteq> [] then p else js ''milian2024'') \<longrightarrow>
            handler_password e req =
              (\<lparr> status = 400, body = Error (js ''No PDF data provided'') \<rparr>, []))"
proof -
  have "js ''POST'' \<noteq> js ''OPTIONS''" by (simp add: js_def)
  then show ?thesis
    using assms
    by (auto simp: handler_def handler_password_def Let_def split: sum.splits)
qed

theorem no_document_request_witness:
  "\<not> truthy (property Undefined (js ''pdfBase64'')) \<and>
   handler sample_env
     \<lparr> req_method = js ''POST'', authorization = Some (js ''Bearer t0''),
       req_body = Undefined \<rparr> =
     (\<lparr> status = 500,
        body = Error_details (js ''Failed to parse PDF'')
                 (js ''Cannot destructure property pdfBase64 of req.body as it is undefined.'') \<rparr>,
      []) \<and>
   handler_password sample_env
     \<lparr> req_method = js ''POST'', authorization = None, req_body = Undefined \<rparr> =
     (\<lparr> status = 500,
        body = Error_details (js ''Failed to parse PDF'')
                 (js ''Cannot destructure property pdfBase64 of req.body as it is undefined.'') \<rparr>,
      []) \<and>
   \<not> truthy (property Null (js ''pdfBase64'')) \<and>
   handler sample_env
     \<lparr> req_method = js ''POST'', authorization = Some (js ''Bearer t0''), req_body = Null \<rparr> =
     (\<lparr> status = 500,
        body = Error_details (js ''Failed to parse PDF'')
                 (js ''Cannot destructure property pdfBase64 of req.body as it is null.'') \<rparr>,
      []) \<and>
   \<not> truthy (property (Obj [(js ''password'', Str (js ''milian2024''))]) (js ''pdfBase64'')) \<and>
   handler sample_env
     \<lparr> req_method = js ''POST'', authorization = Some (js ''Bearer t0''),
       req_body = Obj [(js ''password'', Str (js ''milian2024''))] \<rparr> =
     (\<lparr> status = 400, body = Error (js ''No PDF data provided'') \<rparr>, []) \<and>
   handler_password sample_env
     \<lparr> req_method = js ''POST'', authorization = None,
       req_body = Obj [(js ''password'', Str (js ''milian2024''))] \<rparr> =
     (\<lparr> status = 400, body = Error (js ''No PDF data provided'') \<rparr>, [])"
proof -
  let ?none = "\<lparr> req_method = js ''POST'', authorization = Some (js ''Bearer t0''),
       req_body = Undefined \<rparr>"
  let ?none' = "\<lparr> req_method = js ''POST'', authorization = None, req_body = Undefined \<rparr>"
  let ?req = "\<lparr> req_method = js ''POST'', authorization = Some (js ''Bearer t0''),
       req_body = Obj [(js ''password'', Str (js ''milian2024''))] \<rparr>"
  let ?req' = "\<lparr> req_method = js ''POST'', authorization = None,
       req_body = Obj [(js ''password'', Str (js ''milian2024''))] \<rparr>"
  let ?null = "\<lparr> req_method = js ''POST'', authorization = Some (js ''Bearer t0''),
       req_body = Null \<rparr>"
  have h0: "\<not> truthy (property Undefined (js ''pdfBase64''))"
    "\<not> truthy (property Null (js ''pdfBase64''))"
    by (simp_all add: property_def)
  have h: "\<not> truthy (property (Obj [(js ''password'', Str (js ''milian2024''))]) (js ''pdfBase64''))"
    by (simp add: property_def js_def)
  have v: "verifyUser sample_env (Some (js ''Bearer t0'')) = Inr sample_user"
    by (simp add: verifyUser_def sample_env_def sample_user_def js_def)
  have n: "nullish Undefined" "nullish Null"
    "\<not> nullish (Obj [(js ''password'', Str (js ''milian2024''))])"
    by (simp_all add: nullish_def)
  have m: "destructure_message sample_env Undefined =
             js ''Cannot destructure property pdfBase64 of req.body as it is undefined.''"
    "destructure_message sample_env Null =
             js ''Cannot destructure property pdfBase64 of req.body as it is null.''"
    by (simp_all add: sample_env_def)
  have p: "property (Obj [(js ''password'', Str (js ''milian2024''))]) (js ''password'') =
            Str (case app_password sample_env of
                   None \<Rightarrow> js ''milian2024''
                 | Some p \<Rightarrow> if p \<noteq> [] then p else js ''milian2024'')"
    by (simp add: property_def sample_env_def js_def)
  show ?thesis
    using no_document_request [of ?none sample_env] no_document_request [of ?none' sample_env]
      no_document_request [of ?req sample_env] no_document_request [of ?req' sample_env]
      no_document_request [of ?null sample_env] h0 h v n m p
    by auto
qed

end
